theory Spec2Isabelle
  imports Complex_Main
begin

section \<open>Data model of the recording engine (create.html)\<close>

text \<open>
  The recording, overdub and hijack logic of \<^verbatim>\<open>create.html\<close> works on a handful of
  module-level variables. They are gathered in the record \<open>mixer\<close> below and every
  function of the source becomes a function from \<open>mixer\<close> to \<open>mixer\<close>. Each reading
  of \<^verbatim>\<open>Date.now()\<close> is an explicit argument. Timestamps and slider values are
  integers (milliseconds and percent).
\<close>

datatype control_type = Volume | Opacity | Timestamps

text \<open>A key \<^verbatim>\<open>`${slot}-${controlType}`\<close> of \<^verbatim>\<open>hijackedControls\<close> and \<^verbatim>\<open>lastRecordingTime\<close>.\<close>

type_synonym control_key = "nat \<times> control_type"

text \<open>Every recorded point carries a \<^verbatim>\<open>timestamp\<close>; volume and opacity points add a
  \<^verbatim>\<open>value\<close>, keyframe points add \<^verbatim>\<open>keyframeIndex\<close>, \<^verbatim>\<open>time\<close> and \<^verbatim>\<open>action\<close>.\<close>

record point =
  timestamp :: int

record control_point = point +
  "value" :: int

datatype keyframe_action = SetAction | JumpAction | DeleteAction

record timestamp_point = point +
  keyframeIndex :: nat
  time :: "real option"
  action :: keyframe_action

text \<open>\<^verbatim>\<open>controlData[slot] = {volume: [], opacity: [], timestamps: []}\<close>; the fields are
  named after the parameters of the playback functions that read them.\<close>

record slot_data =
  volumeData :: "control_point list"
  opacityData :: "control_point list"
  timestampData :: "timestamp_point list"

record recording_session =
  session :: nat
  startTime :: int
  duration :: int
  controlData :: "nat \<rightharpoonup> slot_data"

record video =
  volume :: int
  opacity :: int
  linked :: bool
  volumeOpacityLinked :: bool
  locked :: bool
  keyframes :: "real option list"

text \<open>A preview player of the embedding API: the volume it currently has, and whether
  its calls throw (a player that is not ready).\<close>

record player =
  playerVolume :: int
  playerThrows :: bool

text \<open>The sliders \<^verbatim>\<open>vol-${slot}\<close> and \<^verbatim>\<open>opc-${slot}\<close> of the page: the value shown, and
  whether the element carries the class \<^verbatim>\<open>hijacked\<close>, which the replayer reads. The other
  classes are only written and are left out.\<close>

record slider =
  sliderValue :: int
  hijackedClass :: bool

record mixer =
  videos :: "video option list"
  previewPlayers :: "nat \<rightharpoonup> player"
  volSliders :: "nat \<rightharpoonup> slider"
  opcSliders :: "nat \<rightharpoonup> slider"
  isReceivingLink :: bool
  isRecording :: bool
  isCountdown :: bool
  recordingStartTime :: int
  recordingSessions :: "recording_session list"
  currentSession :: nat
  isPlaybackMode :: bool
  hijackedControls :: "control_key list"
  lastRecordingTime :: "control_key \<rightharpoonup> int"
  currentRecordingData :: recording_session
  currentPlaybackVolumes :: "nat \<rightharpoonup> int"

text \<open>\<^verbatim>\<open>videos[slot]\<close>: \<^verbatim>\<open>undefined\<close> beyond the end of the array, \<^verbatim>\<open>null\<close> for an
  emptied slot; both are falsy.\<close>

definition video_at :: "video option list \<Rightarrow> nat \<Rightarrow> video option" where
  "video_at vs slot = (if slot < length vs then vs ! slot else None)"

section \<open>Truncation of recorded data\<close>

text \<open>
  \<^verbatim>\<open>session.controlData[slot][controlType].filter(point => point.timestamp < fromTime)\<close>
\<close>

definition truncate_slot_data :: "control_type \<Rightarrow> int \<Rightarrow> slot_data \<Rightarrow> slot_data" where
  "truncate_slot_data controlType fromTime sd =
     (case controlType of
        Volume \<Rightarrow> sd\<lparr>volumeData := filter (\<lambda>p. timestamp p < fromTime) (volumeData sd)\<rparr>
      | Opacity \<Rightarrow> sd\<lparr>opacityData := filter (\<lambda>p. timestamp p < fromTime) (opacityData sd)\<rparr>
      | Timestamps \<Rightarrow>
          sd\<lparr>timestampData := filter (\<lambda>p. timestamp p < fromTime) (timestampData sd)\<rparr>)"

definition truncate_session ::
  "nat \<Rightarrow> control_type \<Rightarrow> int \<Rightarrow> recording_session \<Rightarrow> recording_session" where
  "truncate_session slot controlType fromTime ses =
     (case controlData ses slot of
        None \<Rightarrow> ses
      | Some sd \<Rightarrow>
          ses\<lparr>controlData := (controlData ses)(slot \<mapsto> truncate_slot_data controlType fromTime sd)\<rparr>)"

definition deleteFutureRecordingData :: "nat \<Rightarrow> control_type \<Rightarrow> int \<Rightarrow> mixer \<Rightarrow> mixer" where
  "deleteFutureRecordingData slot controlType fromTime s =
     s\<lparr>recordingSessions :=
         map (truncate_session slot controlType fromTime) (recordingSessions s)\<rparr>"

text \<open>The log of one (slot, control type) key of a session, as one list of samples
  whatever the control type; a slot without data has the empty log.\<close>

datatype sample = ControlSample control_point | KeyframeSample timestamp_point

fun sample_timestamp :: "sample \<Rightarrow> int" where
  "sample_timestamp (ControlSample p) = timestamp p"
| "sample_timestamp (KeyframeSample p) = timestamp p"

definition slot_log :: "slot_data \<Rightarrow> control_type \<Rightarrow> sample list" where
  "slot_log sd controlType =
     (case controlType of
        Volume \<Rightarrow> map ControlSample (volumeData sd)
      | Opacity \<Rightarrow> map ControlSample (opacityData sd)
      | Timestamps \<Rightarrow> map KeyframeSample (timestampData sd))"

definition control_log :: "recording_session \<Rightarrow> nat \<Rightarrow> control_type \<Rightarrow> sample list" where
  "control_log ses slot controlType =
     (case controlData ses slot of None \<Rightarrow> [] | Some sd \<Rightarrow> slot_log sd controlType)"


section \<open>Hijacking\<close>

text \<open>\<^verbatim>\<open>hijackedControls\<close> and \<^verbatim>\<open>controlsToHijack\<close> are JavaScript \<^verbatim>\<open>Set\<close>s, which keep
  insertion order and ignore a second \<^verbatim>\<open>add\<close> of the same key: lists without
  repetition, \<open>add_key\<close> being \<^verbatim>\<open>Set.add\<close>.\<close>

definition add_key :: "control_key \<Rightarrow> control_key list \<Rightarrow> control_key list" where
  "add_key k ks = (if k \<in> set ks then ks else ks @ [k])"

text \<open>\<^verbatim>\<open>sourceControlType === 'volume' ? 'opacity' : 'volume'\<close>\<close>

definition linkedControl :: "control_type \<Rightarrow> control_type" where
  "linkedControl sourceControlType = (if sourceControlType = Volume then Opacity else Volume)"

text \<open>The body of \<^verbatim>\<open>videos.forEach((video, slot) => ...)\<close> in
  \<^verbatim>\<open>collectLinkedControlsToHijack\<close>.\<close>

definition collect_module ::
  "nat \<Rightarrow> video \<Rightarrow> control_type \<Rightarrow> nat \<times> video option \<Rightarrow> control_key list \<Rightarrow> control_key list" where
  "collect_module sourceSlot sourceVideo sourceControlType entry controlsToHijack =
     (case snd entry of
        None \<Rightarrow> controlsToHijack
      | Some video \<Rightarrow>
          if fst entry \<noteq> sourceSlot \<and> linked video \<and> \<not> locked video then
            (let added = add_key (fst entry, sourceControlType) controlsToHijack in
             if volumeOpacityLinked sourceVideo \<and>
                (sourceControlType = Volume \<or> sourceControlType = Opacity)
             then add_key (fst entry, linkedControl sourceControlType) added
             else added)
          else controlsToHijack)"

definition collectLinkedControlsToHijack ::
  "video option list \<Rightarrow> nat \<Rightarrow> control_type \<Rightarrow> control_key list \<Rightarrow> control_key list" where
  "collectLinkedControlsToHijack vs sourceSlot sourceControlType controlsToHijack =
     (case video_at vs sourceSlot of
        None \<Rightarrow> controlsToHijack
      | Some sourceVideo \<Rightarrow>
          (let own =
             (if volumeOpacityLinked sourceVideo \<and>
                 (sourceControlType = Volume \<or> sourceControlType = Opacity)
              then add_key (sourceSlot, linkedControl sourceControlType) controlsToHijack
              else controlsToHijack)
           in if linked sourceVideo \<and> sourceControlType \<noteq> Timestamps
              then fold (collect_module sourceSlot sourceVideo sourceControlType)
                     (enumerate 0 vs) own
              else own))"

text \<open>\<^verbatim>\<open>updateControlVisualState(slot, controlType, 'hijacked')\<close>: the slider of the control,
  when the page has it, gets the class \<^verbatim>\<open>hijacked\<close>. For \<^verbatim>\<open>timestamps\<close> the element is a
  keyframe button, whose classes are not part of the model.\<close>

definition updateControlVisualState_hijacked :: "nat \<Rightarrow> control_type \<Rightarrow> mixer \<Rightarrow> mixer" where
  "updateControlVisualState_hijacked slot controlType s =
     (case controlType of
        Volume \<Rightarrow>
          (case volSliders s slot of
             None \<Rightarrow> s
           | Some e \<Rightarrow> s\<lparr>volSliders := (volSliders s)(slot \<mapsto> e\<lparr>hijackedClass := True\<rparr>)\<rparr>)
      | Opacity \<Rightarrow>
          (case opcSliders s slot of
             None \<Rightarrow> s
           | Some e \<Rightarrow> s\<lparr>opcSliders := (opcSliders s)(slot \<mapsto> e\<lparr>hijackedClass := True\<rparr>)\<rparr>)
      | Timestamps \<Rightarrow> s)"

text \<open>The body of \<^verbatim>\<open>for (const key of controlsToHijack)\<close> in \<^verbatim>\<open>hijackControl\<close>.\<close>

definition hijack_key :: "int \<Rightarrow> control_key \<Rightarrow> mixer \<Rightarrow> mixer" where
  "hijack_key currentTime key s =
     (if key \<in> set (hijackedControls s) then s
      else updateControlVisualState_hijacked (fst key) (snd key)
             (deleteFutureRecordingData (fst key) (snd key) currentTime
                (s\<lparr>hijackedControls := add_key key (hijackedControls s)\<rparr>)))"

text \<open>\<^verbatim>\<open>hijackControl(slot, controlType)\<close>; \<open>now\<close> is the reading of \<^verbatim>\<open>Date.now()\<close>. The
  recolouring of the keyframe buttons at its end touches no modelled state.\<close>

definition hijackControl :: "int \<Rightarrow> nat \<Rightarrow> control_type \<Rightarrow> mixer \<Rightarrow> mixer" where
  "hijackControl now slot controlType s =
     (let controlKey = (slot, controlType) in
      if isPlaybackMode s \<and> controlKey \<notin> set (hijackedControls s) then
        (let currentTime = now - recordingStartTime s;
             controlsToHijack =
               collectLinkedControlsToHijack (videos s) slot controlType [controlKey]
         in fold (hijack_key currentTime) controlsToHijack s)
      else s)"


section \<open>Linked controls\<close>

text \<open>\<^verbatim>\<open>Math.max(0, Math.min(100, x))\<close>\<close>

definition clamp100 :: "int \<Rightarrow> int" where
  "clamp100 x = max 0 (min 100 x)"

text \<open>\<^verbatim>\<open>if (slider) slider.value = v\<close>\<close>

definition set_slider_value :: "(nat \<rightharpoonup> slider) \<Rightarrow> nat \<Rightarrow> int \<Rightarrow> (nat \<rightharpoonup> slider)" where
  "set_slider_value sliders slot v =
     (case sliders slot of
        None \<Rightarrow> sliders
      | Some e \<Rightarrow> sliders(slot \<mapsto> e\<lparr>sliderValue := v\<rparr>))"

text \<open>The body of \<^verbatim>\<open>videos.forEach((video, slot) => ...)\<close> in \<^verbatim>\<open>updateLinkedControls\<close>.
  \<open>clock\<close> gives, for each control, the reading of \<^verbatim>\<open>Date.now()\<close> in the call of
  \<^verbatim>\<open>hijackControl\<close> for it. The players get the new volume later, from a timer of
  \<^verbatim>\<open>updateAllPlayersVolume\<close>.\<close>

definition link_module ::
  "(control_key \<Rightarrow> int) \<Rightarrow> nat \<Rightarrow> control_type \<Rightarrow> int \<Rightarrow> nat \<Rightarrow> mixer \<Rightarrow> mixer" where
  "link_module clock sourceSlot controlType change slot s =
     (case video_at (videos s) slot of
        None \<Rightarrow> s
      | Some video \<Rightarrow>
          if slot \<noteq> sourceSlot \<and> linked video \<and> \<not> locked video then
            (case controlType of
               Volume \<Rightarrow>
                 (let newLinkedValue = clamp100 (volume video + change);
                      changed = s\<lparr>
                        videos := (videos s)[slot := Some (video\<lparr>volume := newLinkedValue\<rparr>)],
                        volSliders := set_slider_value (volSliders s) slot newLinkedValue\<rparr>
                  in if isPlaybackMode changed
                     then hijackControl (clock (slot, Volume)) slot Volume changed
                     else changed)
             | Opacity \<Rightarrow>
                 (let newLinkedValue = clamp100 (opacity video + change);
                      changed = s\<lparr>
                        videos := (videos s)[slot := Some (video\<lparr>opacity := newLinkedValue\<rparr>)],
                        opcSliders := set_slider_value (opcSliders s) slot newLinkedValue\<rparr>
                  in if isPlaybackMode changed
                     then hijackControl (clock (slot, Opacity)) slot Opacity changed
                     else changed)
             | Timestamps \<Rightarrow> s)
          else s)"

text \<open>\<^verbatim>\<open>updateLinkedControls(sourceSlot, type, oldValue, newValue)\<close>\<close>

definition updateLinkedControls ::
  "(control_key \<Rightarrow> int) \<Rightarrow> nat \<Rightarrow> control_type \<Rightarrow> int \<Rightarrow> int \<Rightarrow> mixer \<Rightarrow> mixer" where
  "updateLinkedControls clock sourceSlot controlType oldValue newValue s =
     (case video_at (videos s) sourceSlot of
        None \<Rightarrow> s
      | Some sourceVideo \<Rightarrow>
          if \<not> linked sourceVideo then s
          else
            (let change = newValue - oldValue
             in fold (link_module clock sourceSlot controlType change)
                  [0..<length (videos s)] s))"

text \<open>The last part of \<^verbatim>\<open>updateVolumeImmediate\<close> and \<^verbatim>\<open>updateOpacityImmediate\<close>: the
  module-to-module linking under the flag \<^verbatim>\<open>isReceivingLink\<close>.\<close>

definition link_to_modules ::
  "(control_key \<Rightarrow> int) \<Rightarrow> nat \<Rightarrow> control_type \<Rightarrow> int \<Rightarrow> int \<Rightarrow> mixer \<Rightarrow> mixer" where
  "link_to_modules clock slot controlType oldValue newValue s =
     (case video_at (videos s) slot of
        None \<Rightarrow> s
      | Some video \<Rightarrow>
          if linked video \<and> \<not> isReceivingLink s then
            (updateLinkedControls clock slot controlType oldValue newValue
               (s\<lparr>isReceivingLink := True\<rparr>))\<lparr>isReceivingLink := False\<rparr>
          else s)"

text \<open>\<^verbatim>\<open>updateOpacityImmediate(slot, value, true)\<close> and
  \<^verbatim>\<open>updateVolumeImmediate(slot, value, true)\<close>: the calls that skip the link between the
  volume and the opacity of the slot.\<close>

definition updateOpacityImmediate_skip :: "(control_key \<Rightarrow> int) \<Rightarrow> nat \<Rightarrow> int \<Rightarrow> mixer \<Rightarrow> mixer" where
  "updateOpacityImmediate_skip clock slot v s =
     (case video_at (videos s) slot of
        None \<Rightarrow> s
      | Some video \<Rightarrow>
          if isReceivingLink s then s
          else
            (let oldValue = opacity video;
                 changed = s\<lparr>videos := (videos s)[slot := Some (video\<lparr>opacity := v\<rparr>)]\<rparr>
             in link_to_modules clock slot Opacity oldValue v changed))"

definition updateVolumeImmediate_skip :: "(control_key \<Rightarrow> int) \<Rightarrow> nat \<Rightarrow> int \<Rightarrow> mixer \<Rightarrow> mixer" where
  "updateVolumeImmediate_skip clock slot v s =
     (case video_at (videos s) slot of
        None \<Rightarrow> s
      | Some video \<Rightarrow>
          if isReceivingLink s then s
          else
            (let oldValue = volume video;
                 changed = s\<lparr>videos := (videos s)[slot := Some (video\<lparr>volume := v\<rparr>)]\<rparr>
             in link_to_modules clock slot Volume oldValue v changed))"

text \<open>A slider that the page must have is missing: reading \<^verbatim>\<open>.value\<close> of \<^verbatim>\<open>null\<close> throws.\<close>

datatype js_error = TypeError

text \<open>\<^verbatim>\<open>updateVolumeImmediate(slot, value)\<close>: what the slider's input handler calls.\<close>

definition updateVolumeImmediate ::
  "(control_key \<Rightarrow> int) \<Rightarrow> nat \<Rightarrow> int \<Rightarrow> mixer \<Rightarrow> js_error + mixer" where
  "updateVolumeImmediate clock slot v s =
     (case video_at (videos s) slot of
        None \<Rightarrow> Inr s
      | Some video \<Rightarrow>
          if isReceivingLink s then Inr s
          else
            (let oldValue = volume video;
                 changed = s\<lparr>videos := (videos s)[slot := Some (video\<lparr>volume := v\<rparr>)]\<rparr>
             in if volumeOpacityLinked video then
                  (case opcSliders changed slot of
                     None \<Rightarrow> Inl TypeError
                   | Some opcSlider \<Rightarrow>
                       (let change = v - oldValue;
                            currentOpacity = sliderValue opcSlider;
                            newOpacity = clamp100 (currentOpacity + change);
                            shown = changed\<lparr>opcSliders :=
                              (opcSliders changed)(slot \<mapsto> opcSlider\<lparr>sliderValue := newOpacity\<rparr>)\<rparr>
                        in Inr (link_to_modules clock slot Volume oldValue v
                             (updateOpacityImmediate_skip clock slot newOpacity shown))))
                else Inr (link_to_modules clock slot Volume oldValue v changed)))"

text \<open>\<^verbatim>\<open>updateOpacityImmediate(slot, value)\<close>\<close>

definition updateOpacityImmediate ::
  "(control_key \<Rightarrow> int) \<Rightarrow> nat \<Rightarrow> int \<Rightarrow> mixer \<Rightarrow> js_error + mixer" where
  "updateOpacityImmediate clock slot v s =
     (case video_at (videos s) slot of
        None \<Rightarrow> Inr s
      | Some video \<Rightarrow>
          if isReceivingLink s then Inr s
          else
            (let oldValue = opacity video;
                 changed = s\<lparr>videos := (videos s)[slot := Some (video\<lparr>opacity := v\<rparr>)]\<rparr>
             in if volumeOpacityLinked video then
                  (case volSliders changed slot of
                     None \<Rightarrow> Inl TypeError
                   | Some volSlider \<Rightarrow>
                       (let change = v - oldValue;
                            currentVolume = sliderValue volSlider;
                            newVolume = clamp100 (currentVolume + change);
                            shown = changed\<lparr>volSliders :=
                              (volSliders changed)(slot \<mapsto> volSlider\<lparr>sliderValue := newVolume\<rparr>)\<rparr>
                        in Inr (link_to_modules clock slot Opacity oldValue v
                             (updateVolumeImmediate_skip clock slot newVolume shown))))
                else Inr (link_to_modules clock slot Opacity oldValue v changed)))"

text \<open>The value of the volume or opacity control of a video, and the video with that
  value replaced; what \<^verbatim>\<open>updateLinkedControls\<close> leaves in a slot of \<^verbatim>\<open>videos\<close>.\<close>

definition control_value :: "control_type \<Rightarrow> video \<Rightarrow> int" where
  "control_value controlType video = (if controlType = Volume then volume video else opacity video)"

definition set_control_value :: "control_type \<Rightarrow> int \<Rightarrow> video \<Rightarrow> video" where
  "set_control_value controlType v video =
     (if controlType = Volume then video\<lparr>volume := v\<rparr> else video\<lparr>opacity := v\<rparr>)"

definition link_result ::
  "nat \<Rightarrow> control_type \<Rightarrow> int \<Rightarrow> nat \<Rightarrow> video option \<Rightarrow> video option" where
  "link_result sourceSlot controlType change slot entry =
     (case entry of
        None \<Rightarrow> None
      | Some video \<Rightarrow>
          if slot \<noteq> sourceSlot \<and> linked video \<and> \<not> locked video
          then Some (set_control_value controlType
                 (clamp100 (control_value controlType video + change)) video)
          else Some video)"

section \<open>Recording\<close>

definition empty_slot_data :: slot_data where
  "empty_slot_data = \<lparr>volumeData = [], opacityData = [], timestampData = []\<rparr>"

text \<open>\<^verbatim>\<open>currentRecordingData.controlData[slot][controlType].push({timestamp, value})\<close>. The
  source calls \<^verbatim>\<open>recordControlChange\<close> with \<^verbatim>\<open>'volume'\<close> or \<^verbatim>\<open>'opacity'\<close> only (from
  \<^verbatim>\<open>updateVolume\<close> and \<^verbatim>\<open>updateOpacity\<close>); keyframe points have their own recorder.\<close>

definition push_control_point :: "control_type \<Rightarrow> control_point \<Rightarrow> slot_data \<Rightarrow> slot_data" where
  "push_control_point controlType p sd =
     (case controlType of
        Volume \<Rightarrow> sd\<lparr>volumeData := volumeData sd @ [p]\<rparr>
      | Opacity \<Rightarrow> sd\<lparr>opacityData := opacityData sd @ [p]\<rparr>
      | Timestamps \<Rightarrow> sd)"

text \<open>\<^verbatim>\<open>recordControlChange(slot, controlType, value)\<close>; \<open>now\<close> is its reading of
  \<^verbatim>\<open>Date.now()\<close>.\<close>

definition recordControlChange :: "int \<Rightarrow> nat \<Rightarrow> control_type \<Rightarrow> int \<Rightarrow> mixer \<Rightarrow> mixer" where
  "recordControlChange now slot controlType v s =
     (if \<not> isRecording s then s
      else
        (let timestamp = now - recordingStartTime s;
             data = controlData (currentRecordingData s);
             sd = (case data slot of None \<Rightarrow> empty_slot_data | Some sd \<Rightarrow> sd)
         in s\<lparr>currentRecordingData := (currentRecordingData s)\<lparr>controlData :=
               data(slot \<mapsto> push_control_point controlType \<lparr>timestamp = timestamp, value = v\<rparr> sd)\<rparr>\<rparr>))"

text \<open>\<^verbatim>\<open>lastRecordingTime[throttleKey]\<close> after the initialisation
  \<^verbatim>\<open>if (!lastRecordingTime[throttleKey]) lastRecordingTime[throttleKey] = 0\<close>.\<close>

definition last_recording_time :: "mixer \<Rightarrow> control_key \<Rightarrow> int" where
  "last_recording_time s throttleKey =
     (case lastRecordingTime s throttleKey of None \<Rightarrow> 0 | Some t \<Rightarrow> t)"

text \<open>\<^verbatim>\<open>recordControlChangeThrottled(slot, controlType, value)\<close>. It reads the clock itself
  (\<open>now\<close>) and \<^verbatim>\<open>recordControlChange\<close> reads it again (\<open>now'\<close>).\<close>

definition recordControlChangeThrottled ::
  "int \<Rightarrow> int \<Rightarrow> nat \<Rightarrow> control_type \<Rightarrow> int \<Rightarrow> mixer \<Rightarrow> mixer" where
  "recordControlChangeThrottled now now' slot controlType v s =
     (if \<not> isRecording s then s
      else
        (let throttleKey = (slot, controlType);
             initialised = s\<lparr>lastRecordingTime :=
               (lastRecordingTime s)(throttleKey \<mapsto> last_recording_time s throttleKey)\<rparr>
         in if now - last_recording_time s throttleKey \<ge> 25 then
              (let recorded = recordControlChange now' slot controlType v initialised
               in recorded\<lparr>lastRecordingTime := (lastRecordingTime recorded)(throttleKey \<mapsto> now)\<rparr>)
            else initialised))"

text \<open>\<^verbatim>\<open>recordTimestampChange(slot, keyframeIndex, time, action)\<close>\<close>

definition recordTimestampChange ::
  "int \<Rightarrow> nat \<Rightarrow> nat \<Rightarrow> real option \<Rightarrow> keyframe_action \<Rightarrow> mixer \<Rightarrow> mixer" where
  "recordTimestampChange now slot kfIndex kfTime kfAction s =
     (if \<not> isRecording s then s
      else
        (let data = controlData (currentRecordingData s);
             sd = (case data slot of None \<Rightarrow> empty_slot_data | Some sd \<Rightarrow> sd)
         in s\<lparr>currentRecordingData := (currentRecordingData s)\<lparr>controlData :=
               data(slot \<mapsto> sd\<lparr>timestampData := timestampData sd @
                 [\<lparr>timestamp = now - recordingStartTime s, keyframeIndex = kfIndex,
                   time = kfTime, action = kfAction\<rparr>]\<rparr>)\<rparr>\<rparr>))"

section \<open>Starting and stopping a session\<close>

text \<open>\<^verbatim>\<open>startPlaybackMode()\<close>. The interval it starts is the replayer below.\<close>

definition startPlaybackMode :: "mixer \<Rightarrow> mixer" where
  "startPlaybackMode s =
     (if length (recordingSessions s) = 0 then s
      else s\<lparr>isPlaybackMode := True, currentPlaybackVolumes := Map.empty\<rparr>)"

definition startCountdown :: "mixer \<Rightarrow> mixer" where
  "startCountdown s = s\<lparr>isCountdown := True\<rparr>"

text \<open>\<^verbatim>\<open>video.keyframes.some(keyframe => keyframe !== null)\<close>\<close>

definition hasKeyframe :: "video \<Rightarrow> bool" where
  "hasKeyframe video = list_ex (\<lambda>keyframe. keyframe \<noteq> None) (keyframes video)"

text \<open>The list \<^verbatim>\<open>videosWithoutKeyframes\<close> that \<^verbatim>\<open>startRecordingSession\<close> builds: for each
  loaded video without a keyframe, its slot plus one. The source finds the slot with
  \<^verbatim>\<open>videos.indexOf(video)\<close>; the video objects are distinct, so that is the slot the
  video sits in.\<close>

definition videosWithoutKeyframes :: "video option list \<Rightarrow> nat list" where
  "videosWithoutKeyframes vs =
     map (\<lambda>entry. fst entry + 1)
       (filter (\<lambda>entry. case snd entry of None \<Rightarrow> False | Some video \<Rightarrow> \<not> hasKeyframe video)
          (enumerate 0 vs))"

text \<open>The two alerts of \<^verbatim>\<open>startRecordingSession\<close>: "Add at least one video before
  recording!" and "Please set at least one timestamp button in video slot(s): ..." with
  the numbers of the slots.\<close>

datatype start_alert = AddVideoFirst | MissingKeyframe "nat list"

text \<open>\<^verbatim>\<open>startRecordingSession()\<close>: the alert shown, if any, and the state afterwards.\<close>

definition startRecordingSession :: "mixer \<Rightarrow> start_alert option \<times> mixer" where
  "startRecordingSession s =
     (if \<not> list_ex (\<lambda>v. v \<noteq> None) (videos s) then (Some AddVideoFirst, s)
      else if length (videosWithoutKeyframes (videos s)) > 0
      then (Some (MissingKeyframe (videosWithoutKeyframes (videos s))), s)
      else
        (let isFirstSession = (length (recordingSessions s) = 0);
             numbered = s\<lparr>currentSession := length (recordingSessions s) + 1\<rparr>
         in (None, startCountdown (if isFirstSession then numbered else startPlaybackMode numbered))))"

text \<open>Removing the class \<^verbatim>\<open>hijacked\<close> from the sliders of every loaded video, as
  \<^verbatim>\<open>unlockControlsForOverdubbing\<close>, \<^verbatim>\<open>updateControlVisualState(slot)\<close>,
  \<^verbatim>\<open>resetControlVisualState\<close> and \<^verbatim>\<open>clearOverdubVisualStates\<close> do.\<close>

definition clear_hijacked_class :: "video option list \<Rightarrow> (nat \<rightharpoonup> slider) \<Rightarrow> (nat \<rightharpoonup> slider)" where
  "clear_hijacked_class vs sliders =
     (\<lambda>slot. case video_at vs slot of
        None \<Rightarrow> sliders slot
      | Some video \<Rightarrow> map_option (\<lambda>e. e\<lparr>hijackedClass := False\<rparr>) (sliders slot))"

definition unlockControlsForOverdubbing :: "mixer \<Rightarrow> mixer" where
  "unlockControlsForOverdubbing s =
     s\<lparr>hijackedControls := [],
       volSliders := clear_hijacked_class (videos s) (volSliders s),
       opcSliders := clear_hijacked_class (videos s) (opcSliders s)\<rparr>"

text \<open>\<^verbatim>\<open>startActualRecording()\<close>, called when the countdown ends; \<open>now\<close> is
  \<^verbatim>\<open>Date.now()\<close>.\<close>

definition startActualRecording :: "int \<Rightarrow> mixer \<Rightarrow> mixer" where
  "startActualRecording now s =
     (let started = s\<lparr>isRecording := True, recordingStartTime := now,
            lastRecordingTime := Map.empty\<rparr>;
          unlocked = (if currentSession started > 1 then unlockControlsForOverdubbing started
                      else started)
      in unlocked\<lparr>currentRecordingData :=
           \<lparr>session = currentSession unlocked, startTime = now, duration = 60000,
            controlData = (\<lambda>slot. case video_at (videos unlocked) slot of
               None \<Rightarrow> None | Some video \<Rightarrow> Some empty_slot_data)\<rparr>\<rparr>)"

text \<open>The last tick of the countdown interval: \<^verbatim>\<open>isCountdown = false; startActualRecording()\<close>.\<close>

definition countdownFinished :: "int \<Rightarrow> mixer \<Rightarrow> mixer" where
  "countdownFinished now s = startActualRecording now (s\<lparr>isCountdown := False\<rparr>)"

text \<open>\<^verbatim>\<open>stopRecording()\<close>; \<open>now\<close> is \<^verbatim>\<open>Date.now()\<close>. The session pushed is a shallow copy
  of \<^verbatim>\<open>currentRecordingData\<close>; the next \<^verbatim>\<open>startActualRecording\<close> replaces
  \<^verbatim>\<open>currentRecordingData\<close> by a new object before anything is recorded again, so the
  copies are kept apart as values here.\<close>

definition stopRecording :: "int \<Rightarrow> mixer \<Rightarrow> mixer" where
  "stopRecording now s =
     (let finished = (currentRecordingData s)\<lparr>duration := now - recordingStartTime s\<rparr>
      in s\<lparr>isRecording := False, isPlaybackMode := False, hijackedControls := [],
           currentRecordingData := finished,
           recordingSessions := recordingSessions s @ [finished],
           volSliders := clear_hijacked_class (videos s) (volSliders s),
           opcSliders := clear_hijacked_class (videos s) (opcSliders s)\<rparr>)"

text \<open>\<^verbatim>\<open>resetInterface()\<close>: every loaded video is removed with its players and sliders
  (\<^verbatim>\<open>actuallyRemoveVideo\<close>), and the recording data is reset.\<close>

definition remove_loaded :: "video option list \<Rightarrow> (nat \<rightharpoonup> 'a) \<Rightarrow> (nat \<rightharpoonup> 'a)" where
  "remove_loaded vs m = (\<lambda>slot. case video_at vs slot of None \<Rightarrow> m slot | Some video \<Rightarrow> None)"

definition resetInterface :: "mixer \<Rightarrow> mixer" where
  "resetInterface s =
     s\<lparr>videos := map (\<lambda>v. None) (videos s),
       previewPlayers := remove_loaded (videos s) (previewPlayers s),
       volSliders := remove_loaded (videos s) (volSliders s),
       opcSliders := remove_loaded (videos s) (opcSliders s),
       recordingSessions := [], currentSession := 0, hijackedControls := [],
       isPlaybackMode := False\<rparr>"

section \<open>Initial values\<close>

text \<open>The video object that \<^verbatim>\<open>loadVideoInSlot\<close> creates, and the module-level variables as
  they are declared.\<close>

definition new_video :: video where
  "new_video = \<lparr>volume = 50, opacity = 100, linked = False, volumeOpacityLinked = False,
     locked = False, keyframes = [None, None, None]\<rparr>"

definition new_slider :: "int \<Rightarrow> slider" where
  "new_slider v = \<lparr>sliderValue = v, hijackedClass = False\<rparr>"

definition initial_mixer :: mixer where
  "initial_mixer = \<lparr>videos = [], previewPlayers = Map.empty, volSliders = Map.empty,
     opcSliders = Map.empty, isReceivingLink = False, isRecording = False,
     isCountdown = False, recordingStartTime = 0, recordingSessions = [], currentSession = 0,
     isPlaybackMode = False, hijackedControls = [], lastRecordingTime = Map.empty,
     currentRecordingData = \<lparr>session = 0, startTime = 0, duration = 60000,
       controlData = Map.empty\<rparr>,
     currentPlaybackVolumes = Map.empty\<rparr>"

section \<open>Saved compositions (create.html, gallery.js)\<close>

text \<open>A saved composition ("art piece", "cut"). Its \<^verbatim>\<open>id\<close> is the number \<^verbatim>\<open>Date.now()\<close>
  when it is saved and a string \<^verbatim>\<open>'imported_...'\<close> after an import. The fields \<^verbatim>\<open>id\<close>,
  \<^verbatim>\<open>videos\<close> and \<^verbatim>\<open>duration\<close> carry the prefix \<open>piece_\<close> here.\<close>

datatype piece_id = NumberId int | StringId string

record saved_video =
  url :: string
  videoId :: string
  title :: string
  savedKeyframes :: "real option list"

record art_piece =
  piece_id :: piece_id
  name :: string
  createdAt :: string
  piece_videos :: "saved_video list"
  sessions :: "recording_session list"
  piece_duration :: int
  thumbnail :: string
  importedAt :: "string option"
  originalName :: "string option"
  compositionHash :: "string option"

text \<open>\<^verbatim>\<open>videos[slot] = x\<close> on a JavaScript array: beyond the end the array grows, the
  slots in between staying empty.\<close>

definition set_slot :: "'a option list \<Rightarrow> nat \<Rightarrow> 'a option \<Rightarrow> 'a option list" where
  "set_slot xs slot x =
     (if slot < length xs then xs[slot := x]
      else xs @ replicate (slot - length xs) None @ [x])"

text \<open>\<^verbatim>\<open>loadVideoInSlot(slot, url, videoId)\<close>: the old players of the slot are destroyed,
  a fresh video object is stored and the module's sliders are created with the values 50
  and 100. The players are created later, when the embedding API answers.\<close>

definition loadVideoInSlot :: "nat \<Rightarrow> mixer \<Rightarrow> mixer" where
  "loadVideoInSlot slot s =
     s\<lparr>videos := set_slot (videos s) slot (Some new_video),
       previewPlayers := (previewPlayers s)(slot := None),
       volSliders := (volSliders s)(slot \<mapsto> new_slider 50),
       opcSliders := (opcSliders s)(slot \<mapsto> new_slider 100)\<rparr>"

text \<open>\<^verbatim>\<open>loadAndPlayArtPiece(composition)\<close>, up to the point where it returns: the interface
  is reset, the first six videos are loaded and
  \<^verbatim>\<open>recordingSessions = composition.sessions\<close>.\<close>

definition loadAndPlayArtPiece :: "art_piece \<Rightarrow> mixer \<Rightarrow> mixer" where
  "loadAndPlayArtPiece composition s =
     (fold loadVideoInSlot [0..<min 6 (length (piece_videos composition))] (resetInterface s))
       \<lparr>recordingSessions := sessions composition\<rparr>"

section \<open>The states the page can reach\<close>

text \<open>
  In \<^verbatim>\<open>create.html\<close> the variable \<^verbatim>\<open>isPlaybackMode\<close> is assigned in \<^verbatim>\<open>startPlaybackMode\<close>,
  \<^verbatim>\<open>stopRecording\<close> and \<^verbatim>\<open>resetInterface\<close> only, and \<^verbatim>\<open>recordingSessions\<close> is assigned or
  changed in \<^verbatim>\<open>stopRecording\<close>, \<^verbatim>\<open>resetInterface\<close>, \<^verbatim>\<open>loadAndPlayArtPiece\<close> and
  \<^verbatim>\<open>deleteFutureRecordingData\<close> (called by \<^verbatim>\<open>hijackControl\<close>) only. The rule \<open>other\<close> stands
  for every other function of the page: it may change anything but these two variables.
\<close>

inductive reachable :: "mixer \<Rightarrow> bool" where
  initial: "reachable initial_mixer"
| start: "reachable s \<Longrightarrow> reachable (snd (startRecordingSession s))"
| countdown: "reachable s \<Longrightarrow> reachable (countdownFinished now s)"
| stop: "reachable s \<Longrightarrow> reachable (stopRecording now s)"
| hijack: "reachable s \<Longrightarrow> reachable (hijackControl now slot controlType s)"
| reset: "reachable s \<Longrightarrow> reachable (resetInterface s)"
| load: "reachable s \<Longrightarrow> reachable (loadAndPlayArtPiece composition s)"
| other: "reachable s \<Longrightarrow> isPlaybackMode s' = isPlaybackMode s \<Longrightarrow>
     recordingSessions s' = recordingSessions s \<Longrightarrow> reachable s'"

section \<open>Replay during an overdub (create.html)\<close>

text \<open>The try block \<^verbatim>\<open>previewPlayers[slot].setVolume(v); currentPlaybackVolumes[slot] = v\<close>:
  when the player throws, the catch clause only logs and the tracked volume stays.\<close>

definition trySetVolume :: "nat \<Rightarrow> int \<Rightarrow> mixer \<Rightarrow> mixer" where
  "trySetVolume slot v s =
     (case previewPlayers s slot of
        None \<Rightarrow> s
      | Some p \<Rightarrow>
          if playerThrows p then s
          else s\<lparr>previewPlayers := (previewPlayers s)(slot \<mapsto> p\<lparr>playerVolume := v\<rparr>),
                 currentPlaybackVolumes := (currentPlaybackVolumes s)(slot \<mapsto> v)\<rparr>)"

text \<open>\<^verbatim>\<open>applyVolumeSmooth(slot, targetVolume)\<close> of create.html.\<close>

definition applyVolumeSmooth :: "nat \<Rightarrow> int \<Rightarrow> mixer \<Rightarrow> mixer" where
  "applyVolumeSmooth slot targetVolume s =
     (case previewPlayers s slot of
        None \<Rightarrow> s
      | Some p \<Rightarrow>
          (let currentVolume =
                 (case currentPlaybackVolumes s slot of
                    Some v \<Rightarrow> v
                  | None \<Rightarrow> if playerThrows p then 50 else playerVolume p);
               initialised =
                 s\<lparr>currentPlaybackVolumes := (currentPlaybackVolumes s)(slot \<mapsto> currentVolume)\<rparr>;
               volumeDiff = \<bar>targetVolume - currentVolume\<bar>
           in if volumeDiff \<le> 2 then trySetVolume slot targetVolume initialised
              else
                (let step = (if volumeDiff > 20 then 5 else 2);
                     nextVolume =
                       currentVolume + (if targetVolume > currentVolume then step else - step);
                     clampedVolume =
                       (if targetVolume > currentVolume then min nextVolume targetVolume
                        else max nextVolume targetVolume)
                 in trySetVolume slot clampedVolume initialised)))"

text \<open>The \<^verbatim>\<open>for\<close> loop of \<^verbatim>\<open>playbackVolumeData\<close>: it returns \<^verbatim>\<open>currentPoint\<close> and
  \<^verbatim>\<open>nextPoint\<close>, and stops at the first point after \<open>currentTime\<close>.\<close>

fun find_points ::
  "control_point list \<Rightarrow> int \<Rightarrow> control_point option \<Rightarrow> control_point option \<times> control_point option"
  where
  "find_points [] currentTime currentPoint = (currentPoint, None)"
| "find_points (p # ps) currentTime currentPoint =
     (let current = (if timestamp p \<le> currentTime then Some p else currentPoint)
      in if timestamp p > currentTime then (current, Some p)
         else find_points ps currentTime current)"

text \<open>\<^verbatim>\<open>Math.round\<close>. The arithmetic of the interpolation is exact here, where JavaScript
  computes in double precision.\<close>

definition js_round :: "real \<Rightarrow> int" where
  "js_round x = \<lfloor>x + 1 / 2\<rfloor>"

text \<open>The value \<^verbatim>\<open>interpolatedValue\<close> that \<^verbatim>\<open>playbackVolumeData\<close> computes, if it finds a
  current point.\<close>

definition interpolatedValue :: "control_point list \<Rightarrow> int \<Rightarrow> int option" where
  "interpolatedValue points currentTime =
     (case find_points points currentTime None of
        (None, nextPoint) \<Rightarrow> None
      | (Some currentPoint, None) \<Rightarrow> Some (value currentPoint)
      | (Some currentPoint, Some nextPoint) \<Rightarrow>
          (let timeDiff = timestamp nextPoint - timestamp currentPoint;
               valueDiff = value nextPoint - value currentPoint;
               timeProgress =
                 real_of_int (currentTime - timestamp currentPoint) / real_of_int timeDiff
           in if timeDiff < 500
              then Some (js_round (real_of_int (value currentPoint) +
                     real_of_int valueDiff * timeProgress))
              else Some (value currentPoint)))"

text \<open>\<^verbatim>\<open>playbackVolumeData(slot, volumeData, currentTime)\<close> of create.html.\<close>

definition playbackVolumeData :: "nat \<Rightarrow> control_point list \<Rightarrow> int \<Rightarrow> mixer \<Rightarrow> mixer" where
  "playbackVolumeData slot points currentTime s =
     (case interpolatedValue points currentTime of
        None \<Rightarrow> s
      | Some v \<Rightarrow>
          (case volSliders s slot of
             None \<Rightarrow> s
           | Some e \<Rightarrow>
               if hijackedClass e then s
               else
                 (let shown = s\<lparr>volSliders := (volSliders s)(slot \<mapsto> e\<lparr>sliderValue := v\<rparr>)\<rparr>
                  in case previewPlayers shown slot of
                       None \<Rightarrow> shown
                     | Some p \<Rightarrow> applyVolumeSmooth slot v shown)))"

text \<open>\<^verbatim>\<open>opacityData.find(point => Math.abs(point.timestamp - currentTime) < 100)\<close>\<close>

definition opacityPoint :: "control_point list \<Rightarrow> int \<Rightarrow> control_point option" where
  "opacityPoint points currentTime =
     find (\<lambda>point. \<bar>timestamp point - currentTime\<bar> < 100) points"

text \<open>\<^verbatim>\<open>playbackOpacityData(slot, opacityData, currentTime)\<close> of create.html. The layer
  \<^verbatim>\<open>main-layer-${slot}\<close> gets the same value, divided by 100.\<close>

definition playbackOpacityData :: "nat \<Rightarrow> control_point list \<Rightarrow> int \<Rightarrow> mixer \<Rightarrow> mixer" where
  "playbackOpacityData slot points currentTime s =
     (case opacityPoint points currentTime of
        None \<Rightarrow> s
      | Some point \<Rightarrow>
          (case opcSliders s slot of
             None \<Rightarrow> s
           | Some e \<Rightarrow>
               if hijackedClass e then s
               else s\<lparr>opcSliders := (opcSliders s)(slot \<mapsto> e\<lparr>sliderValue := value point\<rparr>)\<rparr>))"

text \<open>The body of \<^verbatim>\<open>Object.keys(session.controlData).forEach(slot => ...)\<close> in
  \<^verbatim>\<open>playbackSessionData\<close>. The replay of keyframe jumps seeks the players, whose position
  is not part of the model.\<close>

definition playback_slot :: "recording_session \<Rightarrow> int \<Rightarrow> nat \<Rightarrow> mixer \<Rightarrow> mixer" where
  "playback_slot ses currentTime slot s =
     (case controlData ses slot of
        None \<Rightarrow> s
      | Some slotData \<Rightarrow>
          (let afterVolume =
                 (if video_at (videos s) slot \<noteq> None \<and> (slot, Volume) \<notin> set (hijackedControls s)
                  then playbackVolumeData slot (volumeData slotData) currentTime s else s)
           in if video_at (videos afterVolume) slot \<noteq> None \<and>
                 (slot, Opacity) \<notin> set (hijackedControls afterVolume)
              then playbackOpacityData slot (opacityData slotData) currentTime afterVolume
              else afterVolume))"

text \<open>\<^verbatim>\<open>playbackSessionData(session, currentTime)\<close>. The keys of \<^verbatim>\<open>controlData\<close> are slot
  numbers, which \<^verbatim>\<open>Object.keys\<close> lists in ascending order; a key without a video does
  nothing, so the slots of \<^verbatim>\<open>videos\<close> are all that matter.\<close>

definition playbackSessionData :: "recording_session \<Rightarrow> int \<Rightarrow> mixer \<Rightarrow> mixer" where
  "playbackSessionData ses currentTime s =
     fold (playback_slot ses currentTime) [0..<length (videos s)] s"

text \<open>One tick of the interval of \<^verbatim>\<open>startPlaybackMode\<close>:
  \<^verbatim>\<open>recordingSessions.forEach(session => playbackSessionData(session, elapsed))\<close>.\<close>

definition playbackTick :: "int \<Rightarrow> mixer \<Rightarrow> mixer" where
  "playbackTick elapsed s =
     fold (\<lambda>ses. playbackSessionData ses elapsed) (recordingSessions s) s"

section \<open>Replay on the playback page (playback.js)\<close>

text \<open>The state of the playback page: its players, \<^verbatim>\<open>window.seekingSlots\<close> and its own
  \<^verbatim>\<open>currentPlaybackVolumes\<close>. Functions and fields whose names create.html also uses
  carry the suffix \<open>_pb\<close>.\<close>

record playback_page =
  mainPlayers :: "nat \<rightharpoonup> player"
  seekingSlots :: "nat list"
  currentPlaybackVolumes_pb :: "nat \<rightharpoonup> int"

text \<open>The loop of \<^verbatim>\<open>playbackVolumeData\<close> and \<^verbatim>\<open>playbackOpacityData\<close> of playback.js: the
  value of the last point at or before \<open>currentTime\<close>, stopping at the first later point.\<close>

fun latest_value :: "control_point list \<Rightarrow> int \<Rightarrow> int \<Rightarrow> int" where
  "latest_value [] currentTime target = target"
| "latest_value (p # ps) currentTime target =
     (if timestamp p \<le> currentTime then latest_value ps currentTime (value p) else target)"

text \<open>\<^verbatim>\<open>targetVolume\<close> of \<^verbatim>\<open>playbackVolumeData\<close> and \<^verbatim>\<open>targetOpacity\<close> of
  \<^verbatim>\<open>playbackOpacityData\<close>: nothing for an empty log, and otherwise the loop started with the
  value of the first point.\<close>

definition targetVolume :: "control_point list \<Rightarrow> int \<Rightarrow> int option" where
  "targetVolume points currentTime =
     (case points of
        [] \<Rightarrow> None
      | p # ps \<Rightarrow> Some (latest_value points currentTime (value p)))"

definition targetOpacity :: "control_point list \<Rightarrow> int \<Rightarrow> int option" where
  "targetOpacity points currentTime =
     (case points of
        [] \<Rightarrow> None
      | p # ps \<Rightarrow> Some (latest_value points currentTime (value p)))"

text \<open>\<^verbatim>\<open>applyVolumeSmooth(slot, targetVolume)\<close> of playback.js.\<close>

definition applyVolumeSmooth_pb :: "nat \<Rightarrow> int \<Rightarrow> playback_page \<Rightarrow> playback_page" where
  "applyVolumeSmooth_pb slot target pg =
     (case mainPlayers pg slot of
        None \<Rightarrow> pg
      | Some p \<Rightarrow>
          if slot \<in> set (seekingSlots pg) then pg
          else
            (let currentVolume =
                   (case currentPlaybackVolumes_pb pg slot of None \<Rightarrow> 50 | Some v \<Rightarrow> v);
                 initialised = pg\<lparr>currentPlaybackVolumes_pb :=
                   (currentPlaybackVolumes_pb pg)(slot \<mapsto> currentVolume)\<rparr>;
                 volumeDiff = \<bar>target - currentVolume\<bar>;
                 setVolume = (\<lambda>v. initialised\<lparr>
                   mainPlayers := (mainPlayers pg)(slot \<mapsto> p\<lparr>playerVolume := v\<rparr>),
                   currentPlaybackVolumes_pb := (currentPlaybackVolumes_pb pg)(slot \<mapsto> v)\<rparr>)
             in if playerThrows p then initialised
                else if volumeDiff \<le> 5 then setVolume target
                else
                  (let step = min 3 volumeDiff;
                       nextVolume = currentVolume + (if target > currentVolume then step else - step);
                       clampedVolume = (if target > currentVolume then min nextVolume target
                                        else max nextVolume target)
                   in setVolume clampedVolume)))"

text \<open>\<^verbatim>\<open>playbackVolumeData(slot, volumeData, currentTime)\<close> of playback.js; the slider it
  also sets is only a display.\<close>

definition playbackVolumeData_pb ::
  "nat \<Rightarrow> control_point list \<Rightarrow> int \<Rightarrow> playback_page \<Rightarrow> playback_page" where
  "playbackVolumeData_pb slot points currentTime pg =
     (case targetVolume points currentTime of
        None \<Rightarrow> pg
      | Some v \<Rightarrow> applyVolumeSmooth_pb slot v pg)"

section \<open>Export and import of a composition (gallery.js)\<close>

text \<open>
  \<^verbatim>\<open>exportCut\<close> wraps the saved composition into an object and writes it with
  \<^verbatim>\<open>JSON.stringify\<close>; the import reads the file with \<^verbatim>\<open>JSON.parse\<close> and hands the object to
  \<^verbatim>\<open>processImportedData\<close>. The data of a composition are strings, integers, \<^verbatim>\<open>null\<close>, arrays
  and objects, which the two JSON functions carry over unchanged, so the model passes the
  object itself.
\<close>

record export_data =
  version :: string
  exportDate :: string
  exportedBy :: string
  artPiece :: art_piece

text \<open>\<^verbatim>\<open>exportCut(cutId)\<close>: nothing is exported when no saved cut has the id. The source
  compares the ids with \<^verbatim>\<open>==\<close>; here the id asked for is of the kind of the saved one.\<close>

definition exportCut :: "art_piece list \<Rightarrow> piece_id \<Rightarrow> string \<Rightarrow> export_data option" where
  "exportCut savedCuts cutId date =
     (case find (\<lambda>piece. piece_id piece = cutId) savedCuts of
        None \<Rightarrow> None
      | Some piece \<Rightarrow>
          Some \<lparr>version = ''1.0'', exportDate = date, exportedBy = ''Splice'',
            artPiece = piece\<rparr>)"

text \<open>Truthiness of an id: the number 0 and the empty string are falsy.\<close>

definition truthy_id :: "piece_id \<Rightarrow> bool" where
  "truthy_id i = (case i of NumberId n \<Rightarrow> n \<noteq> 0 | StringId t \<Rightarrow> t \<noteq> [])"

datatype import_error = MissingData | DuplicateFound

text \<open>\<^verbatim>\<open>processImportedData(importData, fileName)\<close> for a file in the format of
  \<^verbatim>\<open>exportCut\<close>. The hash function \<^verbatim>\<open>generateCompositionHash\<close>, the fresh id, the import
  date and the time suffix for a repeated name are arguments. The result is the new list
  \<^verbatim>\<open>savedCuts\<close>, or the error shown.\<close>

definition processImportedData ::
  "(art_piece \<Rightarrow> string) \<Rightarrow> string \<Rightarrow> string \<Rightarrow> string \<Rightarrow> art_piece list \<Rightarrow> export_data \<Rightarrow>
     import_error + art_piece list" where
  "processImportedData generateCompositionHash newId now suffix savedCuts importData =
     (let piece = artPiece importData in
      if \<not> truthy_id (piece_id piece) \<or> name piece = [] then Inl MissingData
      else
        (let incomingHash = generateCompositionHash piece in
         case find (\<lambda>saved. compositionHash saved = Some incomingHash) savedCuts of
           Some existingCut \<Rightarrow> Inl DuplicateFound
         | None \<Rightarrow>
             (let imported = piece\<lparr>piece_id := StringId newId, importedAt := Some now,
                    originalName := Some (name piece), compositionHash := Some incomingHash\<rparr>;
                  renamed =
                    (case find (\<lambda>saved. originalName saved = originalName imported) savedCuts of
                       Some existingCutByName \<Rightarrow> imported\<lparr>name := name piece @ '' '' @ suffix\<rparr>
                     | None \<Rightarrow> imported)
              in Inr (savedCuts @ [renamed]))))"

section \<open>The values a replay computes\<close>

text \<open>For one session, slot and instant: the volume and the opacity that the overdub
  replayer of create.html computes, and those that the replayer of playback.js computes
  (\<open>None\<close> where it computes none).\<close>

definition overdub_values :: "recording_session \<Rightarrow> nat \<Rightarrow> int \<Rightarrow> int option \<times> int option" where
  "overdub_values ses slot t =
     (case controlData ses slot of
        None \<Rightarrow> (None, None)
      | Some slotData \<Rightarrow>
          (interpolatedValue (volumeData slotData) t,
           map_option value (opacityPoint (opacityData slotData) t)))"

definition page_values :: "recording_session \<Rightarrow> nat \<Rightarrow> int \<Rightarrow> int option \<times> int option" where
  "page_values ses slot t =
     (case controlData ses slot of
        None \<Rightarrow> (None, None)
      | Some slotData \<Rightarrow>
          (targetVolume (volumeData slotData) t, targetOpacity (opacityData slotData) t))"

text \<open>The instants 0, 100, ..., 60000 ms, and the replay of a list of sessions sampled at
  them: for every instant, the values of every session in recording order.\<close>

definition sample_times :: "int list" where
  "sample_times = map (\<lambda>k. 100 * int k) [0..<601]"

definition overdub_replay ::
  "recording_session list \<Rightarrow> nat \<Rightarrow> (int option \<times> int option) list list" where
  "overdub_replay sess slot = map (\<lambda>t. map (\<lambda>ses. overdub_values ses slot t) sess) sample_times"

definition page_replay ::
  "recording_session list \<Rightarrow> nat \<Rightarrow> (int option \<times> int option) list list" where
  "page_replay sess slot = map (\<lambda>t. map (\<lambda>ses. page_values ses slot t) sess) sample_times"

text \<open>Consecutive points of a log are at least \<open>d\<close> milliseconds apart.\<close>

fun spaced :: "int \<Rightarrow> control_point list \<Rightarrow> bool" where
  "spaced d [] = True"
| "spaced d [p] = True"
| "spaced d (p # q # ps) = (timestamp q - timestamp p \<ge> d \<and> spaced d (q # ps))"

section \<open>Example states\<close>

text \<open>A first session of two slots: volume samples at 0 ms and 1000 ms in slot 0, opacity
  samples every 10 s in slot 1.\<close>

definition scenario_volume :: "control_point list" where
  "scenario_volume = [\<lparr>timestamp = 0, value = 50\<rparr>, \<lparr>timestamp = 1000, value = 80\<rparr>]"

definition example_session :: recording_session where
  "example_session = \<lparr>session = 1, startTime = 1000000, duration = 60000,
     controlData = [
       0 \<mapsto> \<lparr>volumeData = scenario_volume, opacityData = [], timestampData = []\<rparr>,
       1 \<mapsto> \<lparr>volumeData = [],
              opacityData = [\<lparr>timestamp = 0, value = 100\<rparr>, \<lparr>timestamp = 10000, value = 100\<rparr>,
                \<lparr>timestamp = 20000, value = 100\<rparr>, \<lparr>timestamp = 30000, value = 100\<rparr>],
              timestampData = []\<rparr>]\<rparr>"

text \<open>An overdub in progress over that session. Slots 0 and 1 are cross-module linked and
  unlocked; only slot 1 has its volume and opacity linked.\<close>

definition overdub_mixer :: mixer where
  "overdub_mixer = initial_mixer\<lparr>
     videos := [Some (new_video\<lparr>linked := True\<rparr>),
                Some (new_video\<lparr>linked := True, volumeOpacityLinked := True\<rparr>)],
     volSliders := [0 \<mapsto> new_slider 50, 1 \<mapsto> new_slider 50],
     opcSliders := [0 \<mapsto> new_slider 100, 1 \<mapsto> new_slider 100],
     isRecording := True, recordingStartTime := 2000000,
     recordingSessions := [example_session], currentSession := 2, isPlaybackMode := True,
     currentRecordingData := \<lparr>session = 2, startTime = 2000000, duration = 60000,
       controlData = [0 \<mapsto> \<lparr>volumeData = [], opacityData = [], timestampData = []\<rparr>,
                      1 \<mapsto> \<lparr>volumeData = [], opacityData = [], timestampData = []\<rparr>]\<rparr>\<rparr>"

text \<open>Slot 0 has its first keyframe at 5 s, slot 1 is empty, slot 2 has no keyframe.\<close>

definition no_keyframe_mixer :: mixer where
  "no_keyframe_mixer = initial_mixer\<lparr>
     videos := [Some (new_video\<lparr>keyframes := [Some 5, None, None]\<rparr>), None, Some new_video]\<rparr>"

text \<open>The first session of a page with one video whose first keyframe is set: the
  video is loaded, the session is started and the countdown has ended at time 1000000.\<close>

definition first_session_mixer :: mixer where
  "first_session_mixer =
     countdownFinished 1000000 (snd (startRecordingSession
       (initial_mixer\<lparr>videos := [Some (new_video\<lparr>keyframes := [Some 5, None, None]\<rparr>)],
          volSliders := [0 \<mapsto> new_slider 50], opcSliders := [0 \<mapsto> new_slider 100]\<rparr>)))"

text \<open>A playback page with a player in slot 0 whose last applied volume is 50.\<close>

definition example_page :: playback_page where
  "example_page = \<lparr>mainPlayers = [0 \<mapsto> \<lparr>playerVolume = 50, playerThrows = False\<rparr>],
     seekingSlots = [], currentPlaybackVolumes_pb = [0 \<mapsto> 50]\<rparr>"

text \<open>The overdub of \<open>overdub_mixer\<close> with a ready preview player in slot 0 at volume 50.\<close>

definition overdub_player_mixer :: mixer where
  "overdub_player_mixer =
     overdub_mixer\<lparr>previewPlayers := [0 \<mapsto> \<lparr>playerVolume = 50, playerThrows = False\<rparr>]\<rparr>"

text \<open>A session whose volume log of slot 0 starts at 250 ms, and a saved composition
  made of the example session.\<close>

definition late_session :: recording_session where
  "late_session = \<lparr>session = 1, startTime = 1000000, duration = 60000,
     controlData = [0 \<mapsto> \<lparr>volumeData = [\<lparr>timestamp = 250, value = 80\<rparr>],
       opacityData = [\<lparr>timestamp = 0, value = 100\<rparr>], timestampData = []\<rparr>]\<rparr>"

definition example_piece :: art_piece where
  "example_piece = \<lparr>piece_id = NumberId 1700000000000, name = ''First cut'',
     createdAt = ''2024-01-01T00:00:00.000Z'',
     piece_videos = [\<lparr>url = ''https://youtu.be/a'', videoId = ''a'', title = ''Video 1'',
       savedKeyframes = [Some 5, None, None]\<rparr>],
     sessions = [example_session], piece_duration = 60000, thumbnail = ''a.jpg'',
     importedAt = None, originalName = None, compositionHash = None\<rparr>"

section \<open>Properties\<close>

subsection \<open>Properties of truncation\<close>

lemma slot_log_truncate_same:
  "slot_log (truncate_slot_data ct t sd) ct = filter (\<lambda>p. sample_timestamp p < t) (slot_log sd ct)"
  by (cases ct) (simp_all add: slot_log_def truncate_slot_data_def filter_map comp_def)

lemma slot_log_truncate_other:
  "ct' \<noteq> ct \<Longrightarrow> slot_log (truncate_slot_data ct t sd) ct' = slot_log sd ct'"
  by (cases ct; cases ct') (simp_all add: slot_log_def truncate_slot_data_def)

lemma truncate_slot_data_idem:
  "truncate_slot_data ct t (truncate_slot_data ct t sd) = truncate_slot_data ct t sd"
  by (cases ct) (simp_all add: truncate_slot_data_def)

lemma truncate_slot_data_noop:
  "\<forall>p \<in> set (slot_log sd ct). sample_timestamp p < t \<Longrightarrow> truncate_slot_data ct t sd = sd"
  by (cases ct) (simp_all add: slot_log_def truncate_slot_data_def)

lemma control_log_truncate_same:
  "control_log (truncate_session slot ct t ses) slot ct =
     filter (\<lambda>p. sample_timestamp p < t) (control_log ses slot ct)"
  by (simp add: control_log_def truncate_session_def slot_log_truncate_same split: option.splits)

lemma control_log_truncate_other:
  "(slot', ct') \<noteq> (slot, ct) \<Longrightarrow>
     control_log (truncate_session slot ct t ses) slot' ct' = control_log ses slot' ct'"
  by (auto simp: control_log_def truncate_session_def slot_log_truncate_other
      split: option.splits)

lemma truncate_session_idem:
  "truncate_session slot ct t (truncate_session slot ct t ses) = truncate_session slot ct t ses"
  by (simp add: truncate_session_def truncate_slot_data_idem split: option.splits)

lemma truncate_session_noop:
  assumes "\<forall>p \<in> set (control_log ses slot ct). sample_timestamp p < t"
  shows "truncate_session slot ct t ses = ses"
proof (cases "controlData ses slot")
  case None
  then show ?thesis by (simp add: truncate_session_def)
next
  case (Some sd)
  with assms have "truncate_slot_data ct t sd = sd"
    by (simp add: control_log_def truncate_slot_data_noop)
  with Some have "(controlData ses)(slot \<mapsto> truncate_slot_data ct t sd) = controlData ses"
    by (simp add: fun_upd_idem)
  with Some show ?thesis by (simp add: truncate_session_def)
qed

lemma truncate_session_meta:
  "session (truncate_session slot ct t ses) = session ses \<and>
   startTime (truncate_session slot ct t ses) = startTime ses \<and>
   duration (truncate_session slot ct t ses) = duration ses \<and>
   dom (controlData (truncate_session slot ct t ses)) = dom (controlData ses)"
  by (auto simp: truncate_session_def split: option.splits)

text \<open>
  Claim C1. After \<open>deleteFutureRecordingData slot ct t\<close>, in every finalized session the
  log of \<open>(slot, ct)\<close> is the old log with exactly the samples of timestamp \<open>\<ge> t\<close>
  removed: no sample at or after \<open>t\<close> remains, the samples before \<open>t\<close> are kept unchanged
  and in their order. The logs of every other key, the number of sessions and their
  header fields are unchanged. Running the truncation again changes nothing, and it
  changes nothing at all when no sample of the key is at or after \<open>t\<close>.
\<close>

theorem deleteFutureRecordingData_truncation:
  fixes s :: mixer and slot :: nat and ct :: control_type and t :: int
  defines "s' \<equiv> deleteFutureRecordingData slot ct t s"
  shows "length (recordingSessions s') = length (recordingSessions s)
    \<and> (\<forall>i < length (recordingSessions s).
          control_log (recordingSessions s' ! i) slot ct =
            filter (\<lambda>p. sample_timestamp p < t) (control_log (recordingSessions s ! i) slot ct)
        \<and> (\<forall>p \<in> set (control_log (recordingSessions s' ! i) slot ct). sample_timestamp p < t)
        \<and> (\<forall>slot' ct'. (slot', ct') \<noteq> (slot, ct) \<longrightarrow>
              control_log (recordingSessions s' ! i) slot' ct' =
              control_log (recordingSessions s ! i) slot' ct')
        \<and> session (recordingSessions s' ! i) = session (recordingSessions s ! i)
        \<and> startTime (recordingSessions s' ! i) = startTime (recordingSessions s ! i)
        \<and> duration (recordingSessions s' ! i) = duration (recordingSessions s ! i))
    \<and> deleteFutureRecordingData slot ct t s' = s'
    \<and> ((\<forall>ses \<in> set (recordingSessions s). \<forall>p \<in> set (control_log ses slot ct).
           sample_timestamp p < t) \<longrightarrow> s' = s)"
proof -
  have len: "length (recordingSessions s') = length (recordingSessions s)"
    by (simp add: s'_def deleteFutureRecordingData_def)
  have nth: "recordingSessions s' ! i = truncate_session slot ct t (recordingSessions s ! i)"
    if "i < length (recordingSessions s)" for i
    using that by (simp add: s'_def deleteFutureRecordingData_def)
  have per: "control_log (recordingSessions s' ! i) slot ct =
            filter (\<lambda>p. sample_timestamp p < t) (control_log (recordingSessions s ! i) slot ct)
        \<and> (\<forall>p \<in> set (control_log (recordingSessions s' ! i) slot ct). sample_timestamp p < t)
        \<and> (\<forall>slot' ct'. (slot', ct') \<noteq> (slot, ct) \<longrightarrow>
              control_log (recordingSessions s' ! i) slot' ct' =
              control_log (recordingSessions s ! i) slot' ct')
        \<and> session (recordingSessions s' ! i) = session (recordingSessions s ! i)
        \<and> startTime (recordingSessions s' ! i) = startTime (recordingSessions s ! i)
        \<and> duration (recordingSessions s' ! i) = duration (recordingSessions s ! i)"
    if "i < length (recordingSessions s)" for i
    using control_log_truncate_other [of _ _ slot ct t "recordingSessions s ! i"]
    by (simp add: nth [OF that] control_log_truncate_same truncate_session_meta)
  have idem: "deleteFutureRecordingData slot ct t s' = s'"
    by (simp add: s'_def deleteFutureRecordingData_def truncate_session_idem comp_def)
  have noop: "s' = s"
    if "\<forall>ses \<in> set (recordingSessions s). \<forall>p \<in> set (control_log ses slot ct).
           sample_timestamp p < t"
  proof -
    from that have "map (truncate_session slot ct t) (recordingSessions s) = recordingSessions s"
      by (simp add: map_idI truncate_session_noop)
    then show ?thesis by (simp add: s'_def deleteFutureRecordingData_def)
  qed
  from len per idem noop show ?thesis by blast
qed



theorem deleteFutureRecordingData_truncation_witness:
  "control_log (recordingSessions (deleteFutureRecordingData 1 Opacity 20000 overdub_mixer) ! 0)
       1 Opacity =
     [ControlSample \<lparr>timestamp = 0, value = 100\<rparr>, ControlSample \<lparr>timestamp = 10000, value = 100\<rparr>]
   \<and> control_log (recordingSessions (deleteFutureRecordingData 1 Opacity 20000 overdub_mixer) ! 0)
       0 Volume =
     [ControlSample \<lparr>timestamp = 0, value = 50\<rparr>, ControlSample \<lparr>timestamp = 1000, value = 80\<rparr>]
   \<and> deleteFutureRecordingData 1 Opacity 20000
        (deleteFutureRecordingData 1 Opacity 20000 overdub_mixer) =
       deleteFutureRecordingData 1 Opacity 20000 overdub_mixer"
proof -
  have len: "length (recordingSessions overdub_mixer) = 1"
    by (simp add: overdub_mixer_def initial_mixer_def)
  have old1: "control_log (recordingSessions overdub_mixer ! 0) 1 Opacity =
      [ControlSample \<lparr>timestamp = 0, value = 100\<rparr>, ControlSample \<lparr>timestamp = 10000, value = 100\<rparr>,
       ControlSample \<lparr>timestamp = 20000, value = 100\<rparr>, ControlSample \<lparr>timestamp = 30000, value = 100\<rparr>]"
    by (simp add: overdub_mixer_def initial_mixer_def example_session_def control_log_def
        slot_log_def scenario_volume_def)
  have old0: "control_log (recordingSessions overdub_mixer ! 0) 0 Volume =
      [ControlSample \<lparr>timestamp = 0, value = 50\<rparr>, ControlSample \<lparr>timestamp = 1000, value = 80\<rparr>]"
    by (simp add: overdub_mixer_def initial_mixer_def example_session_def control_log_def
        slot_log_def scenario_volume_def)
  define s' where "s' = deleteFutureRecordingData 1 Opacity 20000 overdub_mixer"
  note th = deleteFutureRecordingData_truncation [of 1 Opacity 20000 overdub_mixer, folded s'_def]
  have i0: "0 < length (recordingSessions overdub_mixer)"
    by (simp add: len)
  have ne: "(0::nat, Volume) \<noteq> (1, Opacity)"
    by simp
  from th i0 have "control_log (recordingSessions s' ! 0) 1 Opacity =
      filter (\<lambda>p. sample_timestamp p < 20000)
        (control_log (recordingSessions overdub_mixer ! 0) 1 Opacity)"
    by blast
  then have A: "control_log (recordingSessions s' ! 0) 1 Opacity =
      [ControlSample \<lparr>timestamp = 0, value = 100\<rparr>, ControlSample \<lparr>timestamp = 10000, value = 100\<rparr>]"
    unfolding old1 by simp
  from th i0 ne have "control_log (recordingSessions s' ! 0) 0 Volume =
      control_log (recordingSessions overdub_mixer ! 0) 0 Volume"
    by blast
  then have B: "control_log (recordingSessions s' ! 0) 0 Volume =
      [ControlSample \<lparr>timestamp = 0, value = 50\<rparr>, ControlSample \<lparr>timestamp = 1000, value = 80\<rparr>]"
    by (simp only: old0)
  from th have C: "deleteFutureRecordingData 1 Opacity 20000 s' = s'"
    by blast
  from A B C show ?thesis
    unfolding s'_def by (intro conjI)
qed

subsection \<open>Properties of hijacking\<close>

lemma set_add_key: "set (add_key k ks) = insert k (set ks)"
  by (auto simp: add_key_def)

lemma hijackedControls_visual:
  "hijackedControls (updateControlVisualState_hijacked slot ct s) = hijackedControls s"
  by (simp add: updateControlVisualState_hijacked_def split: control_type.splits option.splits)

lemma hijackedControls_deleteFuture:
  "hijackedControls (deleteFutureRecordingData slot ct t s) = hijackedControls s"
  by (simp add: deleteFutureRecordingData_def)

lemma set_hijacked_hijack_key:
  "set (hijackedControls (hijack_key t k s)) = insert k (set (hijackedControls s))"
  by (auto simp: hijack_key_def hijackedControls_visual hijackedControls_deleteFuture set_add_key)

lemma set_hijacked_fold:
  "set (hijackedControls (fold (hijack_key t) ks s)) = set (hijackedControls s) \<union> set ks"
  by (induction ks arbitrary: s) (auto simp: set_hijacked_hijack_key)

lemma set_collect_module:
  "set (collect_module src sv ct e acc) =
     set acc \<union> {k. \<exists>v. snd e = Some v \<and> fst e \<noteq> src \<and> linked v \<and> \<not> locked v \<and>
        (k = (fst e, ct) \<or>
         (volumeOpacityLinked sv \<and> (ct = Volume \<or> ct = Opacity) \<and> k = (fst e, linkedControl ct)))}"
  by (auto simp: collect_module_def set_add_key Let_def split: option.splits)

lemma set_fold_collect_module:
  "set (fold (collect_module src sv ct) es acc) =
     set acc \<union> {k. \<exists>e \<in> set es. \<exists>v. snd e = Some v \<and> fst e \<noteq> src \<and> linked v \<and> \<not> locked v \<and>
        (k = (fst e, ct) \<or>
         (volumeOpacityLinked sv \<and> (ct = Volume \<or> ct = Opacity) \<and> k = (fst e, linkedControl ct)))}"
proof (induction es arbitrary: acc)
  case Nil
  then show ?case by simp
next
  case (Cons e es)
  show ?case
    unfolding fold_Cons comp_def Cons.IH set_collect_module by auto
qed

lemma subset_collect: "set c \<subseteq> set (collectLinkedControlsToHijack vs src ct c)"
  by (auto simp: collectLinkedControlsToHijack_def set_fold_collect_module set_add_key Let_def
      split: option.splits)

text \<open>
  Claim C4. A second call of \<open>hijackControl\<close> for the same slot and control type, at
  whatever later instant, leaves the whole state as the first call left it: the set of
  hijacked controls, the logs of every session and everything else. It truncates nothing
  further and hijacks no further control.
\<close>

theorem hijackControl_idempotent:
  "hijackControl now2 slot ct (hijackControl now1 slot ct s) = hijackControl now1 slot ct s"
proof (cases "isPlaybackMode s \<and> (slot, ct) \<notin> set (hijackedControls s)")
  case True
  have "(slot, ct) \<in> set (collectLinkedControlsToHijack (videos s) slot ct [(slot, ct)])"
    using subset_collect [of "[(slot, ct)]" "videos s" slot ct] by simp
  then have "(slot, ct) \<in> set (hijackedControls (hijackControl now1 slot ct s))"
    using True by (simp add: hijackControl_def Let_def set_hijacked_fold)
  then show ?thesis
    by (simp add: hijackControl_def [of now2] Let_def)
next
  case False
  then have "hijackControl now1 slot ct s = s"
    by (auto simp: hijackControl_def Let_def)
  with False show ?thesis
    by (auto simp: hijackControl_def Let_def)
qed

lemma ex_enumerate_videos:
  "(\<exists>e \<in> set (enumerate 0 vs). \<exists>v. snd e = Some v \<and> P (fst e) v) \<longleftrightarrow>
   (\<exists>i v. video_at vs i = Some v \<and> P i v)"
proof
  assume "\<exists>e \<in> set (enumerate 0 vs). \<exists>v. snd e = Some v \<and> P (fst e) v"
  then obtain i x v where "(i, x) \<in> set (enumerate 0 vs)" "x = Some v" "P i v"
    by auto
  then have "video_at vs i = Some v \<and> P i v"
    by (simp add: in_set_enumerate_eq video_at_def)
  then show "\<exists>i v. video_at vs i = Some v \<and> P i v" by blast
next
  assume "\<exists>i v. video_at vs i = Some v \<and> P i v"
  then obtain i v where iv: "video_at vs i = Some v" "P i v" by blast
  then have "i < length vs" "vs ! i = Some v"
    by (auto simp: video_at_def split: if_splits)
  then have "(i, Some v) \<in> set (enumerate 0 vs)"
    by (simp add: in_set_enumerate_eq)
  with iv show "\<exists>e \<in> set (enumerate 0 vs). \<exists>v. snd e = Some v \<and> P (fst e) v"
    by force
qed

lemma set_collectLinkedControlsToHijack:
  assumes "video_at vs src = Some sv" "linked sv" "ct = Volume \<or> ct = Opacity"
  shows "set (collectLinkedControlsToHijack vs src ct c) =
     set c \<union> {k. volumeOpacityLinked sv \<and> k = (src, linkedControl ct)} \<union>
     {k. \<exists>other v. video_at vs other = Some v \<and> other \<noteq> src \<and> linked v \<and> \<not> locked v \<and>
        (k = (other, ct) \<or> (volumeOpacityLinked sv \<and> k = (other, linkedControl ct)))}"
proof -
  have ts: "ct \<noteq> Timestamps" using assms(3) by auto
  have "set (collectLinkedControlsToHijack vs src ct c) =
     set c \<union> {k. volumeOpacityLinked sv \<and> k = (src, linkedControl ct)} \<union>
     {k. \<exists>e \<in> set (enumerate 0 vs). \<exists>v. snd e = Some v \<and> (fst e \<noteq> src \<and> linked v \<and> \<not> locked v \<and>
        (k = (fst e, ct) \<or> (volumeOpacityLinked sv \<and> k = (fst e, linkedControl ct))))}"
    using assms ts
    by (auto simp: collectLinkedControlsToHijack_def set_fold_collect_module set_add_key)
  moreover have "(\<exists>e \<in> set (enumerate 0 vs). \<exists>v. snd e = Some v \<and> (fst e \<noteq> src \<and> linked v \<and> \<not> locked v \<and>
        (k = (fst e, ct) \<or> (volumeOpacityLinked sv \<and> k = (fst e, linkedControl ct))))) \<longleftrightarrow>
      (\<exists>other v. video_at vs other = Some v \<and> (other \<noteq> src \<and> linked v \<and> \<not> locked v \<and>
        (k = (other, ct) \<or> (volumeOpacityLinked sv \<and> k = (other, linkedControl ct)))))" for k
    by (rule ex_enumerate_videos
        [where P = "\<lambda>i v. i \<noteq> src \<and> linked v \<and> \<not> locked v \<and>
           (k = (i, ct) \<or> (volumeOpacityLinked sv \<and> k = (i, linkedControl ct)))"])
  ultimately show ?thesis
    by simp
qed


text \<open>
  Claim C2 (as amended). In overdub playback mode, one call of \<open>hijackControl\<close> for the
  volume or the opacity of a track with cross-module linking, the control not being
  hijacked yet, leaves exactly these controls hijacked: those hijacked before; the touched
  control; the same control type on every other track that is cross-module linked and not
  locked; and, when the touched track itself has volume-opacity linking, the paired
  control on the touched track and on each of those other tracks. Whether an other track
  has volume-opacity linking of its own plays no part in the call.
\<close>

theorem hijackControl_linkage:
  assumes "isPlaybackMode s" "(slot, ct) \<notin> set (hijackedControls s)"
    "video_at (videos s) slot = Some sourceVideo" "linked sourceVideo" "ct = Volume \<or> ct = Opacity"
  shows "k \<in> set (hijackedControls (hijackControl now slot ct s)) \<longleftrightarrow>
      k \<in> set (hijackedControls s) \<or> k = (slot, ct) \<or>
      (volumeOpacityLinked sourceVideo \<and> k = (slot, linkedControl ct)) \<or>
      (\<exists>other v. other \<noteq> slot \<and> video_at (videos s) other = Some v \<and> linked v \<and> \<not> locked v \<and>
         (k = (other, ct) \<or> (volumeOpacityLinked sourceVideo \<and> k = (other, linkedControl ct))))"
proof -
  have "set (hijackedControls (hijackControl now slot ct s)) =
      set (hijackedControls s) \<union> set (collectLinkedControlsToHijack (videos s) slot ct [(slot, ct)])"
    using assms(1,2) by (simp add: hijackControl_def Let_def set_hijacked_fold)
  then show ?thesis
    unfolding set_collectLinkedControlsToHijack [OF assms(3,4,5)] by auto
qed

lemmas hijack_example_simps =
  hijackControl_def overdub_mixer_def initial_mixer_def new_video_def
  collectLinkedControlsToHijack_def video_at_def enumerate_eq_zip collect_module_def
  add_key_def linkedControl_def hijack_key_def deleteFutureRecordingData_def
  updateControlVisualState_hijacked_def new_slider_def upt_rec

theorem hijackControl_linkage_witness:
  "(1, Volume) \<in> set (hijackedControls (hijackControl 2005000 0 Volume overdub_mixer))
   \<and> (1, Opacity) \<notin> set (hijackedControls (hijackControl 2005000 0 Volume overdub_mixer))"
proof -
  have h1: "isPlaybackMode overdub_mixer"
    and h2: "(0, Volume) \<notin> set (hijackedControls overdub_mixer)"
    and h3: "video_at (videos overdub_mixer) 0 = Some (new_video\<lparr>linked := True\<rparr>)"
    and h4: "linked (new_video\<lparr>linked := True\<rparr>)"
    by (simp_all add: overdub_mixer_def initial_mixer_def video_at_def)
  have h5: "Volume = Volume \<or> Volume = Opacity" by simp
  note th = hijackControl_linkage [OF h1 h2 h3 h4 h5, of _ 2005000]
  show ?thesis
    using th [of "(1, Volume)"] th [of "(1, Opacity)"]
    by (simp add: hijack_example_simps)
qed

text \<open>
  With slot 0 (no volume-opacity link) and slot 1 (volume-opacity linked), both
  cross-module linked and unlocked: the call for the volume of slot 1 hijacks the opacity
  of slot 0, a track without volume-opacity linking, and the call for the volume of slot 0
  does not hijack the opacity of slot 1, a track with it.
\<close>

theorem hijackControl_paired_counterexample:
  "video_at (videos overdub_mixer) 0 = Some (new_video\<lparr>linked := True\<rparr>)
   \<and> video_at (videos overdub_mixer) 1 =
       Some (new_video\<lparr>linked := True, volumeOpacityLinked := True\<rparr>)
   \<and> hijackedControls (hijackControl 2005000 0 Volume overdub_mixer) = [(0, Volume), (1, Volume)]
   \<and> hijackedControls (hijackControl 2005000 1 Volume overdub_mixer) =
       [(1, Volume), (1, Opacity), (0, Volume), (0, Opacity)]"
  by (simp add: hijack_example_simps)

subsection \<open>Properties of the recorder\<close>

lemma control_log_push_same:
  "ct = Volume \<or> ct = Opacity \<Longrightarrow>
   slot_log (push_control_point ct p sd) ct = slot_log sd ct @ [ControlSample p]"
  by (auto simp: slot_log_def push_control_point_def)

lemma control_log_push_other:
  "ct' \<noteq> ct \<Longrightarrow> slot_log (push_control_point ct p sd) ct' = slot_log sd ct'"
  by (cases ct; cases ct') (simp_all add: slot_log_def push_control_point_def)

lemma slot_log_empty: "slot_log empty_slot_data ct = []"
  by (cases ct) (simp_all add: slot_log_def empty_slot_data_def)

lemma recordControlChange_log_same:
  assumes "isRecording s" "ct = Volume \<or> ct = Opacity"
  shows "control_log (currentRecordingData (recordControlChange now slot ct v s)) slot ct =
     control_log (currentRecordingData s) slot ct @
       [ControlSample \<lparr>timestamp = now - recordingStartTime s, value = v\<rparr>]"
  using assms
  by (simp add: recordControlChange_def Let_def control_log_def control_log_push_same
      slot_log_empty split: option.splits)

lemma recordControlChange_log_other:
  assumes "k \<noteq> (slot, ct)"
  shows "control_log (currentRecordingData (recordControlChange now slot ct v s)) (fst k) (snd k) =
     control_log (currentRecordingData s) (fst k) (snd k)"
proof (cases "isRecording s")
  case False
  then show ?thesis by (simp add: recordControlChange_def)
next
  case True
  show ?thesis
  proof (cases "fst k = slot")
    case False
    with True show ?thesis
      by (simp add: recordControlChange_def Let_def control_log_def)
  next
    case same: True
    with assms have "snd k \<noteq> ct" by (cases k) auto
    with True same show ?thesis
      by (simp add: recordControlChange_def Let_def control_log_def control_log_push_other
          slot_log_empty split: option.splits)
  qed
qed

lemma recordControlChange_other_fields:
  "isRecording (recordControlChange now slot ct v s) = isRecording s"
  "recordingStartTime (recordControlChange now slot ct v s) = recordingStartTime s"
  "lastRecordingTime (recordControlChange now slot ct v s) = lastRecordingTime s"
  by (simp_all add: recordControlChange_def Let_def)

lemma throttled_accept:
  assumes "isRecording s" "now - last_recording_time s (slot, ct) \<ge> 25"
  shows "recordControlChangeThrottled now now' slot ct v s =
    (recordControlChange now' slot ct v s)\<lparr>lastRecordingTime := (lastRecordingTime s)((slot, ct) \<mapsto> now)\<rparr>"
  using assms
  by (simp add: recordControlChangeThrottled_def Let_def recordControlChange_def)

lemma throttled_drop:
  assumes "isRecording s" "now - last_recording_time s (slot, ct) < 25"
  shows "recordControlChangeThrottled now now' slot ct v s =
    s\<lparr>lastRecordingTime := (lastRecordingTime s)((slot, ct) \<mapsto> last_recording_time s (slot, ct))\<rparr>"
  using assms
  by (simp add: recordControlChangeThrottled_def Let_def)

lemma throttled_drop_facts:
  assumes "isRecording s" "now - last_recording_time s (slot, ct) < 25"
  shows "currentRecordingData (recordControlChangeThrottled now now' slot ct v s) = currentRecordingData s"
    and "isRecording (recordControlChangeThrottled now now' slot ct v s)"
    and "last_recording_time (recordControlChangeThrottled now now' slot ct v s) k = last_recording_time s k"
  using assms
  by (auto simp: throttled_drop last_recording_time_def split: option.splits)

lemma throttled_window:
  assumes "isRecording s" "\<forall>c \<in> set calls. fst c - last_recording_time s (slot, ct) < 25"
  shows "currentRecordingData
      (fold (\<lambda>c. recordControlChangeThrottled (fst c) (fst (snd c)) slot ct (snd (snd c))) calls s) =
     currentRecordingData s"
  using assms
proof (induction calls arbitrary: s)
  case Nil
  then show ?case by simp
next
  case (Cons c calls)
  let ?s1 = "recordControlChangeThrottled (fst c) (fst (snd c)) slot ct (snd (snd c)) s"
  from Cons.prems have d: "fst c - last_recording_time s (slot, ct) < 25" by simp
  note f = throttled_drop_facts [OF Cons.prems(1) d]
  have "currentRecordingData (fold (\<lambda>c. recordControlChangeThrottled (fst c) (fst (snd c)) slot ct (snd (snd c))) calls ?s1) =
     currentRecordingData ?s1"
    using Cons.prems(2) by (intro Cons.IH) (simp_all add: f)
  then show ?case by (simp add: f)
qed


text \<open>
  Claim C7 (as amended). While a session is being recorded, a call of
  \<open>recordControlChangeThrottled\<close> for a volume or opacity control persists its value exactly
  when at least 25 ms have passed on the clock since the last persisted call for the same
  (slot, control type); the persisted sample is appended to the log with the timestamp
  "clock reading of \<open>recordControlChange\<close> minus session start". After a persisted call
  every further call for the key within the next 25 ms, however many and whatever their
  values, leaves the recorded data unchanged: the first value of a window is kept and the
  later ones are dropped. A call never changes the log or the throttle time of another
  key.
\<close>

theorem recordControlChangeThrottled_throttle:
  fixes s :: mixer and now now' v :: int and slot :: nat and ct :: control_type
  assumes rec: "isRecording s" and ct: "ct = Volume \<or> ct = Opacity"
  defines "s' \<equiv> recordControlChangeThrottled now now' slot ct v s"
  shows "(now - last_recording_time s (slot, ct) \<ge> 25 \<longrightarrow>
           control_log (currentRecordingData s') slot ct =
             control_log (currentRecordingData s) slot ct @
               [ControlSample \<lparr>timestamp = now' - recordingStartTime s, value = v\<rparr>]
           \<and> last_recording_time s' (slot, ct) = now
           \<and> (\<forall>calls. (\<forall>c \<in> set calls. fst c - now < 25) \<longrightarrow>
                currentRecordingData
                  (fold (\<lambda>c. recordControlChangeThrottled (fst c) (fst (snd c)) slot ct (snd (snd c)))
                     calls s') = currentRecordingData s'))
       \<and> (now - last_recording_time s (slot, ct) < 25 \<longrightarrow>
           currentRecordingData s' = currentRecordingData s
           \<and> last_recording_time s' (slot, ct) = last_recording_time s (slot, ct))
       \<and> (\<forall>k. k \<noteq> (slot, ct) \<longrightarrow>
             control_log (currentRecordingData s') (fst k) (snd k) =
               control_log (currentRecordingData s) (fst k) (snd k)
             \<and> last_recording_time s' k = last_recording_time s k)
       \<and> isRecording s' \<and> recordingStartTime s' = recordingStartTime s"
proof -
  have acc: "control_log (currentRecordingData s') slot ct =
             control_log (currentRecordingData s) slot ct @
               [ControlSample \<lparr>timestamp = now' - recordingStartTime s, value = v\<rparr>]
           \<and> last_recording_time s' (slot, ct) = now
           \<and> (\<forall>calls. (\<forall>c \<in> set calls. fst c - now < 25) \<longrightarrow>
                currentRecordingData
                  (fold (\<lambda>c. recordControlChangeThrottled (fst c) (fst (snd c)) slot ct (snd (snd c)))
                     calls s') = currentRecordingData s')"
    if a: "now - last_recording_time s (slot, ct) \<ge> 25"
  proof -
    have eq: "s' = (recordControlChange now' slot ct v s)\<lparr>lastRecordingTime :=
        (lastRecordingTime s)((slot, ct) \<mapsto> now)\<rparr>"
      unfolding s'_def by (rule throttled_accept [OF rec a])
    have l: "last_recording_time s' (slot, ct) = now"
      by (simp add: eq last_recording_time_def)
    have r: "isRecording s'"
      by (simp add: eq recordControlChange_other_fields rec)
    have "currentRecordingData s' = currentRecordingData (recordControlChange now' slot ct v s)"
      by (simp add: eq)
    then have lg: "control_log (currentRecordingData s') slot ct =
             control_log (currentRecordingData s) slot ct @
               [ControlSample \<lparr>timestamp = now' - recordingStartTime s, value = v\<rparr>]"
      by (simp add: recordControlChange_log_same [OF rec ct])
    have w: "currentRecordingData
          (fold (\<lambda>c. recordControlChangeThrottled (fst c) (fst (snd c)) slot ct (snd (snd c)))
             calls s') = currentRecordingData s'"
      if "\<forall>c \<in> set calls. fst c - now < 25" for calls
      using that by (intro throttled_window [OF r]) (simp add: l)
    from lg l w show ?thesis by blast
  qed
  have drop: "currentRecordingData s' = currentRecordingData s
           \<and> last_recording_time s' (slot, ct) = last_recording_time s (slot, ct)"
    if d: "now - last_recording_time s (slot, ct) < 25"
    unfolding s'_def using throttled_drop_facts [OF rec d] by simp
  have other: "control_log (currentRecordingData s') (fst k) (snd k) =
               control_log (currentRecordingData s) (fst k) (snd k)
             \<and> last_recording_time s' k = last_recording_time s k"
    if k: "k \<noteq> (slot, ct)" for k
  proof (cases "now - last_recording_time s (slot, ct) \<ge> 25")
    case True
    have eq: "s' = (recordControlChange now' slot ct v s)\<lparr>lastRecordingTime :=
        (lastRecordingTime s)((slot, ct) \<mapsto> now)\<rparr>"
      unfolding s'_def by (rule throttled_accept [OF rec True])
    show ?thesis
      using k by (simp add: eq recordControlChange_log_other last_recording_time_def)
  next
    case False
    then have d: "now - last_recording_time s (slot, ct) < 25" by simp
    show ?thesis
      unfolding s'_def using throttled_drop_facts [OF rec d] by simp
  qed
  have keep: "isRecording s' \<and> recordingStartTime s' = recordingStartTime s"
    using rec
    by (simp add: s'_def recordControlChangeThrottled_def Let_def recordControlChange_other_fields)
  from acc drop other keep show ?thesis by blast
qed

lemmas record_example_simps =
  recordControlChangeThrottled_def recordControlChange_def last_recording_time_def
  overdub_mixer_def initial_mixer_def push_control_point_def empty_slot_data_def

text \<open>
  Last-value-wins fails: of two volume values 10 and 20 arriving 10 ms apart, the log keeps
  the first, 10, and the later value 20 is never persisted.
\<close>

theorem recordControlChangeThrottled_first_wins_counterexample:
  "map_option volumeData
     (controlData (currentRecordingData
        (recordControlChangeThrottled 2000110 2000110 0 Volume 20
          (recordControlChangeThrottled 2000100 2000100 0 Volume 10 overdub_mixer))) 0) =
   Some [\<lparr>timestamp = 100, value = 10\<rparr>]"
  by (simp add: record_example_simps)

theorem recordControlChangeThrottled_throttle_witness:
  "control_log (currentRecordingData
      (recordControlChangeThrottled 2000100 2000101 0 Volume 10 overdub_mixer)) 0 Volume =
     [ControlSample \<lparr>timestamp = 101, value = 10\<rparr>]
   \<and> currentRecordingData
       (recordControlChangeThrottled 2000110 2000110 0 Volume 20
          (recordControlChangeThrottled 2000100 2000101 0 Volume 10 overdub_mixer)) =
     currentRecordingData (recordControlChangeThrottled 2000100 2000101 0 Volume 10 overdub_mixer)"
proof -
  define s1 where "s1 = recordControlChangeThrottled 2000100 2000101 0 Volume 10 overdub_mixer"
  have rec: "isRecording overdub_mixer"
    by (simp add: overdub_mixer_def initial_mixer_def)
  have ct: "Volume = Volume \<or> Volume = Opacity" by simp
  have last: "last_recording_time overdub_mixer (0, Volume) = 0"
    by (simp add: last_recording_time_def overdub_mixer_def initial_mixer_def)
  have start: "recordingStartTime overdub_mixer = 2000000"
    by (simp add: overdub_mixer_def initial_mixer_def)
  have old: "control_log (currentRecordingData overdub_mixer) 0 Volume = []"
    by (simp add: control_log_def slot_log_def overdub_mixer_def initial_mixer_def)
  note th = recordControlChangeThrottled_throttle
    [OF rec ct, of 2000100 0 2000101 10, folded s1_def, unfolded last start old]
  from th have A: "control_log (currentRecordingData s1) 0 Volume =
      [ControlSample \<lparr>timestamp = 101, value = 10\<rparr>]"
    by simp
  from th have "\<forall>calls. (\<forall>c \<in> set calls. fst c - 2000100 < 25) \<longrightarrow>
      currentRecordingData
        (fold (\<lambda>c. recordControlChangeThrottled (fst c) (fst (snd c)) 0 Volume (snd (snd c))) calls s1) =
      currentRecordingData s1"
    by simp
  from this [rule_format, of "[(2000110, 2000110, 20)]"]
  have B: "currentRecordingData (recordControlChangeThrottled 2000110 2000110 0 Volume 20 s1) =
      currentRecordingData s1"
    by simp
  from A B show ?thesis unfolding s1_def by (intro conjI)
qed


subsection \<open>Starting a session\<close>

lemma in_videosWithoutKeyframes:
  "n \<in> set (videosWithoutKeyframes vs) \<longleftrightarrow>
     (\<exists>i v. n = i + 1 \<and> video_at vs i = Some v \<and> \<not> hasKeyframe v)"
proof -
  have "n \<in> set (videosWithoutKeyframes vs) \<longleftrightarrow>
     (\<exists>e \<in> set (enumerate 0 vs). \<exists>v. snd e = Some v \<and> (n = fst e + 1 \<and> \<not> hasKeyframe v))"
    by (auto simp: videosWithoutKeyframes_def split: option.splits)
  also have "\<dots> \<longleftrightarrow> (\<exists>i v. video_at vs i = Some v \<and> (n = i + 1 \<and> \<not> hasKeyframe v))"
    by (rule ex_enumerate_videos [where P = "\<lambda>i v. n = i + 1 \<and> \<not> hasKeyframe v"])
  finally show ?thesis by auto
qed

lemma hasKeyframe_iff: "hasKeyframe v \<longleftrightarrow> \<not> (\<forall>k \<in> set (keyframes v). k = None)"
  by (auto simp: hasKeyframe_def list_ex_iff)

text \<open>
  Claim C8. When some loaded track has none of its keyframes set, \<open>startRecordingSession\<close>
  shows the missing-keyframe alert and returns with the state exactly as it was: no
  session is created or appended, and \<open>recordingSessions\<close>, \<open>isRecording\<close> and
  \<open>currentRecordingData\<close> are unchanged. The alert lists exactly the offending tracks, each
  by its slot number plus one.
\<close>

theorem startRecordingSession_missing_keyframe:
  assumes "video_at (videos s) slot = Some video" "\<forall>k \<in> set (keyframes video). k = None"
  shows "startRecordingSession s = (Some (MissingKeyframe (videosWithoutKeyframes (videos s))), s)
     \<and> slot + 1 \<in> set (videosWithoutKeyframes (videos s))
     \<and> (\<forall>i. i + 1 \<in> set (videosWithoutKeyframes (videos s)) \<longleftrightarrow>
           (\<exists>v. video_at (videos s) i = Some v \<and> (\<forall>k \<in> set (keyframes v). k = None)))
     \<and> 0 \<notin> set (videosWithoutKeyframes (videos s))
     \<and> recordingSessions (snd (startRecordingSession s)) = recordingSessions s
     \<and> isRecording (snd (startRecordingSession s)) = isRecording s
     \<and> currentRecordingData (snd (startRecordingSession s)) = currentRecordingData s"
proof -
  have nk: "\<not> hasKeyframe video"
    using assms(2) by (simp add: hasKeyframe_iff)
  with assms(1) have mem: "slot + 1 \<in> set (videosWithoutKeyframes (videos s))"
    unfolding in_videosWithoutKeyframes by blast
  then have len: "length (videosWithoutKeyframes (videos s)) > 0"
    by (cases "videosWithoutKeyframes (videos s)") auto
  from assms(1) have "slot < length (videos s)" "videos s ! slot = Some video"
    by (auto simp: video_at_def split: if_splits)
  then have "Some video \<in> set (videos s)"
    by (metis nth_mem)
  then have some: "list_ex (\<lambda>v. v \<noteq> None) (videos s)"
    by (auto simp: list_ex_iff)
  have res: "startRecordingSession s =
      (Some (MissingKeyframe (videosWithoutKeyframes (videos s))), s)"
    using some len by (simp add: startRecordingSession_def)
  have names: "i + 1 \<in> set (videosWithoutKeyframes (videos s)) \<longleftrightarrow>
           (\<exists>v. video_at (videos s) i = Some v \<and> (\<forall>k \<in> set (keyframes v). k = None))" for i
    unfolding in_videosWithoutKeyframes hasKeyframe_iff by auto
  have zero: "0 \<notin> set (videosWithoutKeyframes (videos s))"
    unfolding in_videosWithoutKeyframes by simp
  from res mem names zero show ?thesis by simp
qed

theorem startRecordingSession_missing_keyframe_witness:
  "startRecordingSession no_keyframe_mixer = (Some (MissingKeyframe [3]), no_keyframe_mixer)"
proof -
  have v: "video_at (videos no_keyframe_mixer) 2 = Some new_video"
    by (simp add: no_keyframe_mixer_def initial_mixer_def video_at_def)
  have k: "\<forall>k \<in> set (keyframes new_video). k = None"
    by (simp add: new_video_def)
  have l: "videosWithoutKeyframes (videos no_keyframe_mixer) = [3]"
    by (simp add: videosWithoutKeyframes_def no_keyframe_mixer_def initial_mixer_def
        enumerate_eq_zip upt_rec hasKeyframe_def new_video_def)
  from startRecordingSession_missing_keyframe [OF v k] show ?thesis
    unfolding l by simp
qed

subsection \<open>Playback mode and the first session\<close>

lemma sessions_hijack_key_Nil:
  "recordingSessions s = [] \<Longrightarrow> recordingSessions (hijack_key t k s) = []"
  by (simp add: hijack_key_def deleteFutureRecordingData_def updateControlVisualState_hijacked_def
      split: control_type.splits option.splits)

lemma length_sessions_hijack_key:
  "length (recordingSessions (hijack_key t k s)) = length (recordingSessions s)"
  by (simp add: hijack_key_def deleteFutureRecordingData_def updateControlVisualState_hijacked_def
      split: control_type.splits option.splits)

lemma isPlaybackMode_hijack_key: "isPlaybackMode (hijack_key t k s) = isPlaybackMode s"
  by (simp add: hijack_key_def deleteFutureRecordingData_def updateControlVisualState_hijacked_def
      split: control_type.splits option.splits)

lemma fold_hijack_key_facts:
  "length (recordingSessions (fold (hijack_key t) ks s)) = length (recordingSessions s) \<and>
   isPlaybackMode (fold (hijack_key t) ks s) = isPlaybackMode s"
  by (induction ks arbitrary: s) (simp_all add: length_sessions_hijack_key isPlaybackMode_hijack_key)

lemma hijackControl_facts:
  "length (recordingSessions (hijackControl now slot ct s)) = length (recordingSessions s)"
  "isPlaybackMode (hijackControl now slot ct s) = isPlaybackMode s"
  by (simp_all add: hijackControl_def Let_def fold_hijack_key_facts)

lemma hijackControl_not_playback: "\<not> isPlaybackMode s \<Longrightarrow> hijackControl now slot ct s = s"
  by (simp add: hijackControl_def)

lemma fold_loadVideoInSlot_facts:
  "isPlaybackMode (fold loadVideoInSlot slots s) = isPlaybackMode s"
  by (induction slots arbitrary: s) (simp_all add: loadVideoInSlot_def)

lemma reachable_playback_inv: "reachable s \<Longrightarrow> isPlaybackMode s \<Longrightarrow> recordingSessions s \<noteq> []"
proof (induction rule: reachable.induct)
  case initial
  then show ?case by (simp add: initial_mixer_def)
next
  case (start s)
  then show ?case
    by (auto simp: startRecordingSession_def startCountdown_def startPlaybackMode_def Let_def
        split: if_splits)
next
  case (countdown s now)
  then show ?case
    by (auto simp: countdownFinished_def startActualRecording_def Let_def
        unlockControlsForOverdubbing_def split: if_splits)
next
  case (stop s now)
  then show ?case by (simp add: stopRecording_def Let_def)
next
  case (hijack s now slot controlType)
  then show ?case
    using hijackControl_facts [of now slot controlType s] by (metis length_0_conv)
next
  case (reset s)
  then show ?case by (simp add: resetInterface_def)
next
  case (load s composition)
  then show ?case
    by (simp add: loadAndPlayArtPiece_def fold_loadVideoInSlot_facts resetInterface_def)
next
  case (other s s')
  then show ?case by simp
qed


text \<open>
  Claim C10. In every state the page can reach, playback mode is on only when there is a
  finalized session. So while no finalized session exists, that is during the first
  recording session, \<open>hijackControl\<close> returns the state unchanged whatever control is
  touched, and starting the session does not enter playback mode. In any reachable state,
  a call of \<open>hijackControl\<close> that changes the state, in particular one that truncates a
  log, happens in playback mode with at least one finalized session.
\<close>

theorem first_session_safety:
  assumes "reachable s"
  shows "(isPlaybackMode s \<longrightarrow> recordingSessions s \<noteq> [])
     \<and> (recordingSessions s = [] \<longrightarrow>
          hijackControl now slot ct s = s \<and> \<not> isPlaybackMode (snd (startRecordingSession s)))
     \<and> (hijackControl now slot ct s \<noteq> s \<longrightarrow> isPlaybackMode s \<and> recordingSessions s \<noteq> [])
     \<and> (recordingSessions (hijackControl now slot ct s) \<noteq> recordingSessions s \<longrightarrow>
          isPlaybackMode s \<and> recordingSessions s \<noteq> [])"
proof -
  have inv: "isPlaybackMode s \<longrightarrow> recordingSessions s \<noteq> []"
    using reachable_playback_inv [OF assms] by blast
  have first: "hijackControl now slot ct s = s \<and> \<not> isPlaybackMode (snd (startRecordingSession s))"
    if e: "recordingSessions s = []"
  proof -
    from inv e have np: "\<not> isPlaybackMode s" by blast
    then have h: "hijackControl now slot ct s = s"
      by (rule hijackControl_not_playback)
    have "\<not> isPlaybackMode (snd (startRecordingSession s))"
      using np e by (simp add: startRecordingSession_def startCountdown_def Let_def)
    with h show ?thesis by blast
  qed
  have changed: "isPlaybackMode s \<and> recordingSessions s \<noteq> []"
    if "hijackControl now slot ct s \<noteq> s"
    using that inv hijackControl_not_playback [of s now slot ct] by blast
  have truncated: "isPlaybackMode s \<and> recordingSessions s \<noteq> []"
    if "recordingSessions (hijackControl now slot ct s) \<noteq> recordingSessions s"
    using that changed by force
  from inv first changed truncated show ?thesis by blast
qed

theorem first_session_safety_witness:
  "recordingSessions first_session_mixer = [] \<and> isRecording first_session_mixer
   \<and> hijackControl 1005000 0 Volume first_session_mixer = first_session_mixer"
proof -
  let ?loaded = "initial_mixer\<lparr>videos := [Some (new_video\<lparr>keyframes := [Some 5, None, None]\<rparr>)],
          volSliders := [0 \<mapsto> new_slider 50], opcSliders := [0 \<mapsto> new_slider 100]\<rparr>"
  have "reachable ?loaded"
    by (rule reachable.other [OF reachable.initial]) simp_all
  then have "reachable (snd (startRecordingSession ?loaded))"
    by (rule reachable.start)
  then have r: "reachable first_session_mixer"
    unfolding first_session_mixer_def by (rule reachable.countdown)
  have e: "recordingSessions first_session_mixer = []"
    and rec: "isRecording first_session_mixer"
    by (simp_all add: first_session_mixer_def countdownFinished_def startActualRecording_def
        startRecordingSession_def startCountdown_def initial_mixer_def Let_def
        videosWithoutKeyframes_def enumerate_eq_zip hasKeyframe_def new_video_def)
  from first_session_safety [OF r, of 1005000 0 Volume] e rec show ?thesis
    by blast
qed

subsection \<open>Replay\<close>

lemma find_points_scenario_before:
  "0 \<le> elapsed \<Longrightarrow> elapsed < 1000 \<Longrightarrow> interpolatedValue scenario_volume elapsed = Some 50"
  by (simp add: interpolatedValue_def scenario_volume_def)

lemma find_points_scenario_after:
  "1000 \<le> elapsed \<Longrightarrow> interpolatedValue scenario_volume elapsed = Some 80"
  by (simp add: interpolatedValue_def scenario_volume_def)

lemmas replay_example_simps =
  playbackTick_def playbackSessionData_def playback_slot_def overdub_mixer_def initial_mixer_def
  example_session_def playbackVolumeData_def playbackOpacityData_def opacityPoint_def
  video_at_def new_slider_def upt_rec

text \<open>
  Claim C3 (as amended). With the volume samples (0 ms, 50) and (1000 ms, 80) in the log of
  slot 0, the volume computed during overdub replay is 50 at every elapsed time from 0 up
  to, but not including, 1000 ms, in particular at 500 ms: the samples are 1000 ms apart,
  which is not under 500 ms, so nothing is interpolated and the current sample's value is
  used. From 1000 ms on the computed volume is 80, in particular at 2000 ms, where the
  last sample's value is held. One replay tick of the overdub sets the volume slider of
  slot 0 to these values.
\<close>

theorem simple_replay_scenario:
  "(0 \<le> elapsed \<and> elapsed < 1000 \<longrightarrow> interpolatedValue scenario_volume elapsed = Some 50)
   \<and> (1000 \<le> elapsed \<longrightarrow> interpolatedValue scenario_volume elapsed = Some 80)
   \<and> map_option sliderValue (volSliders (playbackTick 500 overdub_mixer) 0) = Some 50
   \<and> map_option sliderValue (volSliders (playbackTick 2000 overdub_mixer) 0) = Some 80"
proof -
  have a: "map_option sliderValue (volSliders (playbackTick 500 overdub_mixer) 0) = Some 50"
    by (simp add: replay_example_simps interpolatedValue_def scenario_volume_def)
  have b: "map_option sliderValue (volSliders (playbackTick 2000 overdub_mixer) 0) = Some 80"
    by (simp add: replay_example_simps interpolatedValue_def scenario_volume_def)
  from a b show ?thesis
    by (simp add: find_points_scenario_before find_points_scenario_after)
qed

theorem simple_replay_scenario_witness:
  "interpolatedValue scenario_volume 500 = Some 50 \<and> interpolatedValue scenario_volume 2000 = Some 80"
  using simple_replay_scenario [of 500] simple_replay_scenario [of 2000] by simp

text \<open>
  At 500 ms the computed volume is not a value strictly between 50 and 80.
\<close>

theorem simple_replay_not_interpolated_counterexample:
  "\<not> (\<exists>v. interpolatedValue scenario_volume 500 = Some v \<and> 50 < v \<and> v < 80)"
  by (simp add: interpolatedValue_def scenario_volume_def)

lemma applyVolumeSmooth_applied:
  assumes "previewPlayers s slot = Some p" "\<not> playerThrows p"
  shows "\<exists>new. currentPlaybackVolumes (applyVolumeSmooth slot target s) slot = Some new
     \<and> map_option playerVolume (previewPlayers (applyVolumeSmooth slot target s) slot) = Some new
     \<and> new = (let cur = (case currentPlaybackVolumes s slot of Some v \<Rightarrow> v | None \<Rightarrow> playerVolume p)
              in if \<bar>target - cur\<bar> \<le> 2 then target
                 else if \<bar>target - cur\<bar> > 20 then (if target > cur then cur + 5 else cur - 5)
                 else (if target > cur then cur + 2 else cur - 2))"
  using assms
  by (auto simp: applyVolumeSmooth_def trySetVolume_def Let_def split: option.splits)

lemma applyVolumeSmooth_pb_applied:
  assumes "mainPlayers pg slot = Some p" "\<not> playerThrows p" "slot \<notin> set (seekingSlots pg)"
  shows "\<exists>new. currentPlaybackVolumes_pb (applyVolumeSmooth_pb slot target pg) slot = Some new
     \<and> map_option playerVolume (mainPlayers (applyVolumeSmooth_pb slot target pg) slot) = Some new
     \<and> new = (let cur = (case currentPlaybackVolumes_pb pg slot of Some v \<Rightarrow> v | None \<Rightarrow> 50)
              in if \<bar>target - cur\<bar> \<le> 5 then target
                 else (if target > cur then cur + 3 else cur - 3))"
  using assms
  by (auto simp: applyVolumeSmooth_pb_def Let_def split: option.splits)

text \<open>
  Claim C6 (as amended). Both replayers keep a last-applied volume per slot and, given a
  ready player, store and apply a new volume that never overshoots the target. In the
  overdub replayer (create.html) the target is applied directly when it differs from the
  last-applied volume by at most 2, and otherwise the volume moves toward the target by 2,
  or by 5 when the gap exceeds 20. In the replayer of the playback page (playback.js) the
  target is applied directly when it differs by at most 5, and otherwise the volume moves
  toward the target by 3, whatever the gap.
\<close>

theorem volume_smoothing:
  fixes s :: mixer and pg :: playback_page and target target' :: int
  assumes "previewPlayers s slot = Some p" "\<not> playerThrows p"
    and "mainPlayers pg slot' = Some q" "\<not> playerThrows q" "slot' \<notin> set (seekingSlots pg)"
  defines "cur \<equiv> (case currentPlaybackVolumes s slot of Some v \<Rightarrow> v | None \<Rightarrow> playerVolume p)"
    and "cur' \<equiv> (case currentPlaybackVolumes_pb pg slot' of Some v \<Rightarrow> v | None \<Rightarrow> 50)"
  shows "\<exists>new new'.
       currentPlaybackVolumes (applyVolumeSmooth slot target s) slot = Some new
     \<and> map_option playerVolume (previewPlayers (applyVolumeSmooth slot target s) slot) = Some new
     \<and> (\<bar>target - cur\<bar> \<le> 2 \<longrightarrow> new = target)
     \<and> (2 < \<bar>target - cur\<bar> \<and> \<bar>target - cur\<bar> \<le> 20 \<and> cur < target \<longrightarrow> new = cur + 2)
     \<and> (2 < \<bar>target - cur\<bar> \<and> \<bar>target - cur\<bar> \<le> 20 \<and> target < cur \<longrightarrow> new = cur - 2)
     \<and> (20 < \<bar>target - cur\<bar> \<and> cur < target \<longrightarrow> new = cur + 5)
     \<and> (20 < \<bar>target - cur\<bar> \<and> target < cur \<longrightarrow> new = cur - 5)
     \<and> min cur target \<le> new \<and> new \<le> max cur target
     \<and> currentPlaybackVolumes_pb (applyVolumeSmooth_pb slot' target' pg) slot' = Some new'
     \<and> map_option playerVolume (mainPlayers (applyVolumeSmooth_pb slot' target' pg) slot') = Some new'
     \<and> (\<bar>target' - cur'\<bar> \<le> 5 \<longrightarrow> new' = target')
     \<and> (5 < \<bar>target' - cur'\<bar> \<and> cur' < target' \<longrightarrow> new' = cur' + 3)
     \<and> (5 < \<bar>target' - cur'\<bar> \<and> target' < cur' \<longrightarrow> new' = cur' - 3)
     \<and> min cur' target' \<le> new' \<and> new' \<le> max cur' target'"
proof -
  from applyVolumeSmooth_applied [OF assms(1,2), of target]
  obtain new where n: "currentPlaybackVolumes (applyVolumeSmooth slot target s) slot = Some new"
    "map_option playerVolume (previewPlayers (applyVolumeSmooth slot target s) slot) = Some new"
    "new = (if \<bar>target - cur\<bar> \<le> 2 then target
                 else if \<bar>target - cur\<bar> > 20 then (if target > cur then cur + 5 else cur - 5)
                 else (if target > cur then cur + 2 else cur - 2))"
    unfolding cur_def Let_def by blast
  from applyVolumeSmooth_pb_applied [OF assms(3,4,5), of target']
  obtain new' where n': "currentPlaybackVolumes_pb (applyVolumeSmooth_pb slot' target' pg) slot' = Some new'"
    "map_option playerVolume (mainPlayers (applyVolumeSmooth_pb slot' target' pg) slot') = Some new'"
    "new' = (if \<bar>target' - cur'\<bar> \<le> 5 then target'
                 else (if target' > cur' then cur' + 3 else cur' - 3))"
    unfolding cur'_def Let_def by blast
  have a: "(\<bar>target - cur\<bar> \<le> 2 \<longrightarrow> new = target)
     \<and> (2 < \<bar>target - cur\<bar> \<and> \<bar>target - cur\<bar> \<le> 20 \<and> cur < target \<longrightarrow> new = cur + 2)
     \<and> (2 < \<bar>target - cur\<bar> \<and> \<bar>target - cur\<bar> \<le> 20 \<and> target < cur \<longrightarrow> new = cur - 2)
     \<and> (20 < \<bar>target - cur\<bar> \<and> cur < target \<longrightarrow> new = cur + 5)
     \<and> (20 < \<bar>target - cur\<bar> \<and> target < cur \<longrightarrow> new = cur - 5)
     \<and> min cur target \<le> new \<and> new \<le> max cur target"
    unfolding n(3) by auto
  have b: "(\<bar>target' - cur'\<bar> \<le> 5 \<longrightarrow> new' = target')
     \<and> (5 < \<bar>target' - cur'\<bar> \<and> cur' < target' \<longrightarrow> new' = cur' + 3)
     \<and> (5 < \<bar>target' - cur'\<bar> \<and> target' < cur' \<longrightarrow> new' = cur' - 3)
     \<and> min cur' target' \<le> new' \<and> new' \<le> max cur' target'"
    unfolding n'(3) by auto
  from n(1,2) n'(1,2) a b show ?thesis by blast
qed

lemmas smooth_example_simps =
  applyVolumeSmooth_def applyVolumeSmooth_pb_def trySetVolume_def example_page_def
  overdub_player_mixer_def overdub_mixer_def initial_mixer_def

text \<open>
  On the playback page, from a last-applied volume of 50: the target 54 (a gap of 4) is
  applied directly, and the targets 60 and 100 (gaps of 10 and 50) both give 53.
\<close>

theorem volume_smoothing_page_counterexample:
  "currentPlaybackVolumes_pb example_page 0 = Some 50
   \<and> currentPlaybackVolumes_pb (applyVolumeSmooth_pb 0 54 example_page) 0 = Some 54
   \<and> currentPlaybackVolumes_pb (applyVolumeSmooth_pb 0 100 example_page) 0 = Some 53
   \<and> currentPlaybackVolumes_pb (applyVolumeSmooth_pb 0 60 example_page) 0 = Some 53"
  by (simp add: smooth_example_simps)

theorem volume_smoothing_witness:
  "currentPlaybackVolumes (applyVolumeSmooth 0 51 overdub_player_mixer) 0 = Some 51
   \<and> currentPlaybackVolumes (applyVolumeSmooth 0 60 overdub_player_mixer) 0 = Some 52
   \<and> currentPlaybackVolumes (applyVolumeSmooth 0 10 overdub_player_mixer) 0 = Some 45
   \<and> currentPlaybackVolumes_pb (applyVolumeSmooth_pb 0 60 example_page) 0 = Some 53"
proof -
  have h1: "previewPlayers overdub_player_mixer 0 = Some \<lparr>playerVolume = 50, playerThrows = False\<rparr>"
    and h2: "\<not> playerThrows \<lparr>playerVolume = 50, playerThrows = False\<rparr>"
    and h3: "mainPlayers example_page 0 = Some \<lparr>playerVolume = 50, playerThrows = False\<rparr>"
    and h5: "0 \<notin> set (seekingSlots example_page)"
    by (simp_all add: overdub_player_mixer_def example_page_def)
  have c: "currentPlaybackVolumes overdub_player_mixer 0 = None"
    and c': "currentPlaybackVolumes_pb example_page 0 = Some 50"
    by (simp_all add: overdub_player_mixer_def overdub_mixer_def initial_mixer_def example_page_def)
  note th = volume_smoothing [OF h1 h2 h3 h2 h5, unfolded c c', simplified]
  from th [of 51 60] th [of 60 60] th [of 10 60] show ?thesis
    by auto
qed

subsection \<open>Export, import and the two replayers\<close>

lemma find_points_latest:
  assumes "spaced 500 (c # ps)" "timestamp c \<le> t"
  shows "\<exists>c'. fst (find_points ps t (Some c)) = Some c' \<and>
           value c' = latest_value ps t (value c) \<and>
           (\<forall>n. snd (find_points ps t (Some c)) = Some n \<longrightarrow> timestamp n - timestamp c' \<ge> 500)"
  using assms
proof (induction ps arbitrary: c)
  case Nil
  then show ?case by simp
next
  case (Cons q qs)
  show ?case
  proof (cases "timestamp q > t")
    case True
    with Cons.prems show ?thesis by simp
  next
    case False
    then have le: "timestamp q \<le> t" by simp
    from Cons.prems have sp: "spaced 500 (q # qs)" by simp
    have fp: "find_points (q # qs) t (Some c) = find_points qs t (Some q)"
      using le by simp
    have lv: "latest_value (q # qs) t (value c) = latest_value qs t (value q)"
      using le by simp
    from Cons.IH [OF sp le] show ?thesis
      unfolding fp lv .
  qed
qed

lemma replayers_agree_spaced:
  assumes "points \<noteq> []" "timestamp (hd points) \<le> t" "spaced 500 points"
  shows "interpolatedValue points t = targetVolume points t"
proof -
  from assms(1) obtain p ps where pts: "points = p # ps"
    by (cases points) auto
  with assms have le: "timestamp p \<le> t" and sp: "spaced 500 (p # ps)"
    by simp_all
  have fp: "find_points points t None = find_points ps t (Some p)"
    using le by (simp add: pts)
  have lv: "latest_value points t (value p) = latest_value ps t (value p)"
    using le by (simp add: pts)
  from find_points_latest [OF sp le] obtain c' where
    c': "fst (find_points ps t (Some p)) = Some c'" "value c' = latest_value ps t (value p)"
      "\<forall>n. snd (find_points ps t (Some p)) = Some n \<longrightarrow> timestamp n - timestamp c' \<ge> 500"
    by blast
  have tv: "targetVolume points t = Some (value c')"
    using le by (simp add: targetVolume_def pts c'(2))
  have iv: "interpolatedValue points t = Some (value c')"
  proof (cases "snd (find_points ps t (Some p))")
    case None
    with c'(1) have "find_points ps t (Some p) = (Some c', None)"
      by (metis prod.collapse)
    then show ?thesis by (simp add: interpolatedValue_def fp)
  next
    case (Some n)
    with c'(1) have e: "find_points ps t (Some p) = (Some c', Some n)"
      by (metis prod.collapse)
    from c'(3) Some have "\<not> timestamp n - timestamp c' < 500" by auto
    with e show ?thesis by (simp add: interpolatedValue_def fp Let_def)
  qed
  from tv iv show ?thesis by simp
qed

lemma round_trip_sessions:
  assumes "exportCut savedCuts cutId date = Some exported"
    "processImportedData hashOf newId now suffix cuts exported = Inr cuts'"
  shows "\<exists>piece imported. find (\<lambda>p. piece_id p = cutId) savedCuts = Some piece
     \<and> cuts' = cuts @ [imported]
     \<and> sessions imported = sessions piece \<and> piece_videos imported = piece_videos piece
     \<and> piece_duration imported = piece_duration piece"
proof -
  from assms(1) obtain piece where f: "find (\<lambda>p. piece_id p = cutId) savedCuts = Some piece"
    and e: "artPiece exported = piece"
    by (auto simp: exportCut_def split: option.splits)
  from assms(2) e obtain imported where "cuts' = cuts @ [imported]"
    "sessions imported = sessions piece" "piece_videos imported = piece_videos piece"
    "piece_duration imported = piece_duration piece"
    by (auto simp: processImportedData_def Let_def split: if_splits option.splits)
  with f show ?thesis by blast
qed


text \<open>
  Claim C5 (as amended). When a saved composition is exported and the exported file is
  imported and accepted, the imported composition has the same sessions and the same
  videos as the saved one (only its id, its import fields and possibly its name differ).
  So a replay of the imported composition with one given replayer, sampled every 100 ms
  over the 60 s, computes for every slot the same volumes and opacities as a replay of the
  original with that replayer. The overdub replayer and the replayer of the playback page
  are not the same function; they compute the same volume from the same session data at
  every instant at or after the first sample of a log whose consecutive samples are at
  least 500 ms apart.
\<close>

theorem round_trip_replay:
  assumes "exportCut savedCuts cutId date = Some exported"
    "processImportedData hashOf newId now suffix cuts exported = Inr cuts'"
  shows "\<exists>piece imported. find (\<lambda>p. piece_id p = cutId) savedCuts = Some piece
     \<and> cuts' = cuts @ [imported]
     \<and> sessions imported = sessions piece \<and> piece_videos imported = piece_videos piece
     \<and> (\<forall>slot. overdub_replay (sessions imported) slot = overdub_replay (sessions piece) slot
              \<and> page_replay (sessions imported) slot = page_replay (sessions piece) slot)
     \<and> (\<forall>ses slot slotData t.
           controlData ses slot = Some slotData \<and> volumeData slotData \<noteq> [] \<and>
           timestamp (hd (volumeData slotData)) \<le> t \<and> spaced 500 (volumeData slotData) \<longrightarrow>
           fst (overdub_values ses slot t) = fst (page_values ses slot t))"
proof -
  from round_trip_sessions [OF assms] obtain piece imported where
    r: "find (\<lambda>p. piece_id p = cutId) savedCuts = Some piece" "cuts' = cuts @ [imported]"
      "sessions imported = sessions piece" "piece_videos imported = piece_videos piece"
    by blast
  have agree: "fst (overdub_values ses slot t) = fst (page_values ses slot t)"
    if "controlData ses slot = Some slotData \<and> volumeData slotData \<noteq> [] \<and>
           timestamp (hd (volumeData slotData)) \<le> t \<and> spaced 500 (volumeData slotData)"
    for ses slot slotData t
    using that by (simp add: overdub_values_def page_values_def replayers_agree_spaced)
  from r agree show ?thesis
    by (simp add: r(3)) blast
qed

theorem round_trip_replay_witness:
  "\<exists>imported.
     processImportedData (\<lambda>p. ''h1'') ''imported_1'' ''2024-02-01'' ''12:00'' []
       \<lparr>version = ''1.0'', exportDate = ''2024-01-02'', exportedBy = ''Splice'',
        artPiece = example_piece\<rparr> = Inr [imported]
     \<and> sessions imported = [example_session]
     \<and> fst (overdub_values example_session 0 500) = fst (page_values example_session 0 500)"
proof -
  let ?exported = "\<lparr>version = ''1.0'', exportDate = ''2024-01-02'', exportedBy = ''Splice'',
        artPiece = example_piece\<rparr>"
  let ?imported = "example_piece\<lparr>piece_id := StringId ''imported_1'',
        importedAt := Some ''2024-02-01'', originalName := Some ''First cut'',
        compositionHash := Some ''h1''\<rparr>"
  have e: "exportCut [example_piece] (NumberId 1700000000000) ''2024-01-02'' = Some ?exported"
    by (simp add: exportCut_def example_piece_def)
  have i: "processImportedData (\<lambda>p. ''h1'') ''imported_1'' ''2024-02-01'' ''12:00'' [] ?exported =
      Inr [?imported]"
    by (simp add: processImportedData_def truthy_id_def example_piece_def)
  have c: "controlData example_session 0 =
      Some \<lparr>volumeData = scenario_volume, opacityData = [], timestampData = []\<rparr>"
    by (simp add: example_session_def)
  have v: "volumeData \<lparr>volumeData = scenario_volume, opacityData = [], timestampData = []\<rparr> \<noteq> [] \<and>
      timestamp (hd (volumeData
        \<lparr>volumeData = scenario_volume, opacityData = [], timestampData = []\<rparr>)) \<le> 500 \<and>
      spaced 500 (volumeData \<lparr>volumeData = scenario_volume, opacityData = [], timestampData = []\<rparr>)"
    by (simp add: scenario_volume_def)
  from round_trip_replay [OF e i] obtain piece imported where
    r: "[?imported] = [] @ [imported]" "sessions imported = sessions piece"
      "find (\<lambda>p. piece_id p = NumberId 1700000000000) [example_piece] = Some piece"
    and a: "\<forall>ses slot slotData t.
           controlData ses slot = Some slotData \<and> volumeData slotData \<noteq> [] \<and>
           timestamp (hd (volumeData slotData)) \<le> t \<and> spaced 500 (volumeData slotData) \<longrightarrow>
           fst (overdub_values ses slot t) = fst (page_values ses slot t)"
    by blast
  from r(3) have "piece = example_piece"
    by (simp add: example_piece_def)
  with r have s: "sessions ?imported = [example_session]"
    by (simp add: example_piece_def)
  from a c v have g: "fst (overdub_values example_session 0 500) = fst (page_values example_session 0 500)"
    by blast
  from i s g show ?thesis by blast
qed

text \<open>
  The two replayers differ on a session whose volume log of slot 0 holds the single sample
  (250 ms, 80) and whose opacity log holds the single sample (0 ms, 100). At 0 ms the
  overdub replayer computes no volume and the playback page computes 80; at 500 ms the
  overdub replayer computes no opacity and the playback page computes 100. So the two
  sampled replays of that session differ.
\<close>

theorem replayers_differ_counterexample:
  "overdub_values late_session 0 0 = (None, Some 100)
   \<and> page_values late_session 0 0 = (Some 80, Some 100)
   \<and> overdub_values late_session 0 500 = (Some 80, None)
   \<and> page_values late_session 0 500 = (Some 80, Some 100)
   \<and> overdub_replay [late_session] 0 \<noteq> page_replay [late_session] 0"
proof -
  have v: "overdub_values late_session 0 0 = (None, Some 100)"
    "page_values late_session 0 0 = (Some 80, Some 100)"
    "overdub_values late_session 0 500 = (Some 80, None)"
    "page_values late_session 0 500 = (Some 80, Some 100)"
    by (simp_all add: overdub_values_def page_values_def late_session_def interpolatedValue_def
        opacityPoint_def targetVolume_def targetOpacity_def)
  have "hd (overdub_replay [late_session] 0) = [overdub_values late_session 0 0]"
    by (simp add: overdub_replay_def sample_times_def hd_map)
  moreover have "hd (page_replay [late_session] 0) = [page_values late_session 0 0]"
    by (simp add: page_replay_def sample_times_def hd_map)
  ultimately have "overdub_replay [late_session] 0 \<noteq> page_replay [late_session] 0"
    using v(1,2) by auto
  with v show ?thesis by simp
qed

subsection \<open>Linked controls\<close>

lemma videos_hijack_key: "videos (hijack_key t k s) = videos s"
  by (simp add: hijack_key_def deleteFutureRecordingData_def updateControlVisualState_hijacked_def
      split: control_type.splits option.splits)

lemma videos_fold_hijack_key: "videos (fold (hijack_key t) ks s) = videos s"
  by (induction ks arbitrary: s) (simp_all add: videos_hijack_key)

lemma videos_hijackControl: "videos (hijackControl now slot ct s) = videos s"
  by (simp add: hijackControl_def Let_def videos_fold_hijack_key)

lemma videos_link_module:
  assumes "ct = Volume \<or> ct = Opacity"
  shows "videos (link_module clock src ct ch i s) =
     (videos s)[i := link_result src ct ch i (video_at (videos s) i)]"
proof (cases "video_at (videos s) i")
  case None
  then have "(videos s)[i := None] = videos s"
    by (cases "i < length (videos s)") (use None in \<open>simp_all add: video_at_def list_update_same_conv list_update_beyond\<close>)
  with None show ?thesis
    by (simp add: link_module_def link_result_def)
next
  case (Some v)
  then have i: "i < length (videos s)" "videos s ! i = Some v"
    by (auto simp: video_at_def split: if_splits)
  then have same: "(videos s)[i := Some v] = videos s"
    by (simp add: list_update_same_conv)
  from assms Some same show ?thesis
    by (auto simp: link_module_def link_result_def Let_def videos_hijackControl
        control_value_def set_control_value_def)
qed

lemma videos_fold_link_module:
  assumes "ct = Volume \<or> ct = Opacity" "k \<le> length (videos s)"
  shows "length (videos (fold (link_module clock src ct ch) [0..<k] s)) = length (videos s) \<and>
     (\<forall>j < length (videos s).
        videos (fold (link_module clock src ct ch) [0..<k] s) ! j =
        (if j < k then link_result src ct ch j (videos s ! j) else videos s ! j))"
  using assms(2)
proof (induction k)
  case 0
  then show ?case by simp
next
  case (Suc k)
  let ?m = "fold (link_module clock src ct ch) [0..<k] s"
  from Suc have IH: "length (videos ?m) = length (videos s)"
    "\<forall>j < length (videos s). videos ?m ! j =
        (if j < k then link_result src ct ch j (videos s ! j) else videos s ! j)"
    by simp_all
  from Suc.prems have k: "k < length (videos s)" by simp
  have at: "video_at (videos ?m) k = videos s ! k"
    using IH k by (simp add: video_at_def)
  have step: "videos (fold (link_module clock src ct ch) [0..<Suc k] s) =
      (videos ?m)[k := link_result src ct ch k (videos s ! k)]"
    by (simp add: videos_link_module [OF assms(1)] at)
  show ?case
    unfolding step using IH k by (auto simp: nth_list_update less_Suc_eq)
qed

lemma videos_updateLinkedControls:
  assumes "video_at (videos s) src = Some sv" "linked sv" "ct = Volume \<or> ct = Opacity"
  shows "length (videos (updateLinkedControls clock src ct old new s)) = length (videos s)"
    and "video_at (videos (updateLinkedControls clock src ct old new s)) j =
      link_result src ct (new - old) j (video_at (videos s) j)"
proof -
  note f = videos_fold_link_module [OF assms(3) order_refl, of clock src "new - old" s]
  show "length (videos (updateLinkedControls clock src ct old new s)) = length (videos s)"
    using assms(1,2) f by (simp add: updateLinkedControls_def)
  show "video_at (videos (updateLinkedControls clock src ct old new s)) j =
      link_result src ct (new - old) j (video_at (videos s) j)"
    using assms(1,2) f by (simp add: updateLinkedControls_def video_at_def link_result_def)
qed


lemma video_at_update:
  "video_at (vs[i := x]) j = (if j = i \<and> i < length vs then x else video_at vs j)"
  by (auto simp: video_at_def)

lemma link_to_modules_videos:
  assumes "video_at (videos s) src = Some sv" "\<not> isReceivingLink s" "ct = Volume \<or> ct = Opacity"
  shows "video_at (videos (link_to_modules clock src ct old new s)) j =
      (if linked sv then link_result src ct (new - old) j (video_at (videos s) j)
       else video_at (videos s) j)"
    and "\<not> isReceivingLink (link_to_modules clock src ct old new s)"
proof -
  let ?r = "s\<lparr>isReceivingLink := True\<rparr>"
  have v: "video_at (videos ?r) src = Some sv" using assms(1) by simp
  show "video_at (videos (link_to_modules clock src ct old new s)) j =
      (if linked sv then link_result src ct (new - old) j (video_at (videos s) j)
       else video_at (videos s) j)"
  proof (cases "linked sv")
    case True
    from videos_updateLinkedControls(2) [OF v True assms(3), of clock old new j]
    show ?thesis using assms(1,2) True by (simp add: link_to_modules_def)
  next
    case False
    then show ?thesis using assms(1) by (simp add: link_to_modules_def)
  qed
  show "\<not> isReceivingLink (link_to_modules clock src ct old new s)"
    using assms(1,2) by (simp add: link_to_modules_def)
qed

lemma link_result_other_volume:
  assumes "video_at vs j = Some video"
  shows "\<exists>video'. link_result src Opacity d j (video_at vs j) = Some video' \<and>
     volume video' = volume video \<and> linked video' = linked video \<and> locked video' = locked video"
  using assms by (simp add: link_result_def set_control_value_def)

lemma link_result_other_opacity:
  assumes "video_at vs j = Some video"
  shows "\<exists>video'. link_result src Volume d j (video_at vs j) = Some video' \<and>
     opacity video' = opacity video \<and> linked video' = linked video \<and> locked video' = locked video"
  using assms by (simp add: link_result_def set_control_value_def)

lemma link_result_affected:
  assumes "j \<noteq> src" "linked video" "\<not> locked video" "ct = Volume \<or> ct = Opacity"
  shows "link_result src ct d j (Some video) =
     Some (set_control_value ct (clamp100 (control_value ct video + d)) video)"
  using assms by (simp add: link_result_def)

lemma link_result_unaffected:
  assumes "\<not> (\<exists>video. entry = Some video \<and> j \<noteq> src \<and> linked video \<and> \<not> locked video)"
  shows "link_result src ct d j entry = entry"
  using assms by (auto simp: link_result_def split: option.splits)


lemma updateOpacityImmediate_skip_videos:
  assumes "video_at (videos s) src = Some sv" "\<not> isReceivingLink s"
  shows "video_at (videos (updateOpacityImmediate_skip clock src x s)) j =
      (if j = src then Some (sv\<lparr>opacity := x\<rparr>)
       else if linked sv then link_result src Opacity (x - opacity sv) j (video_at (videos s) j)
       else video_at (videos s) j)"
    and "\<not> isReceivingLink (updateOpacityImmediate_skip clock src x s)"
proof -
  let ?c = "s\<lparr>videos := (videos s)[src := Some (sv\<lparr>opacity := x\<rparr>)]\<rparr>"
  from assms(1) have len: "src < length (videos s)"
    by (auto simp: video_at_def split: if_splits)
  have e: "updateOpacityImmediate_skip clock src x s = link_to_modules clock src Opacity (opacity sv) x ?c"
    using assms by (simp add: updateOpacityImmediate_skip_def Let_def)
  have c1: "video_at (videos ?c) src = Some (sv\<lparr>opacity := x\<rparr>)"
    using len by (simp add: video_at_update)
  have c2: "\<not> isReceivingLink ?c" using assms(2) by simp
  have o: "Opacity = Volume \<or> Opacity = Opacity" by simp
  note l = link_to_modules_videos [OF c1 c2 o, of clock "opacity sv" x]
  show "\<not> isReceivingLink (updateOpacityImmediate_skip clock src x s)"
    unfolding e by (rule l(2))
  show "video_at (videos (updateOpacityImmediate_skip clock src x s)) j =
      (if j = src then Some (sv\<lparr>opacity := x\<rparr>)
       else if linked sv then link_result src Opacity (x - opacity sv) j (video_at (videos s) j)
       else video_at (videos s) j)"
    unfolding e l(1) using len
    by (auto simp: video_at_update link_result_def)
qed

lemma updateVolumeImmediate_others:
  assumes src: "video_at (videos s) src = Some sv" "linked sv" "\<not> isReceivingLink s"
    and res: "updateVolumeImmediate clock src v s = Inr s''"
    and other: "video_at (videos s) j = Some video" "j \<noteq> src" "linked video" "\<not> locked video"
  shows "map_option volume (video_at (videos s'') j) = Some (clamp100 (volume video + (v - volume sv)))"
proof -
  let ?c = "s\<lparr>videos := (videos s)[src := Some (sv\<lparr>volume := v\<rparr>)]\<rparr>"
  from src(1) have len: "src < length (videos s)"
    by (auto simp: video_at_def split: if_splits)
  have vo: "Volume = Volume \<or> Volume = Opacity" by simp
  show ?thesis
  proof (cases "volumeOpacityLinked sv")
    case False
    with res src have e: "s'' = link_to_modules clock src Volume (volume sv) v ?c"
      by (simp add: updateVolumeImmediate_def Let_def)
    have c1: "video_at (videos ?c) src = Some (sv\<lparr>volume := v\<rparr>)"
      using len by (simp add: video_at_update)
    have c2: "\<not> isReceivingLink ?c" using src(3) by simp
    have cj: "video_at (videos ?c) j = Some video"
      using other by (simp add: video_at_update)
    from link_to_modules_videos(1) [OF c1 c2 vo, of clock "volume sv" v j] src(2)
    have "video_at (videos s'') j = link_result src Volume (v - volume sv) j (Some video)"
      using cj by (simp add: e)
    then show ?thesis
      using other by (simp add: link_result_def set_control_value_def control_value_def)
  next
    case True
    with res src obtain opcSlider where sl: "opcSliders s src = Some opcSlider"
      by (auto simp: updateVolumeImmediate_def Let_def split: option.splits)
    let ?newOpacity = "clamp100 (sliderValue opcSlider + (v - volume sv))"
    let ?shown = "?c\<lparr>opcSliders := (opcSliders ?c)(src \<mapsto> opcSlider\<lparr>sliderValue := ?newOpacity\<rparr>)\<rparr>"
    let ?s1 = "updateOpacityImmediate_skip clock src ?newOpacity ?shown"
    from res src True sl have e: "s'' = link_to_modules clock src Volume (volume sv) v ?s1"
      by (simp add: updateVolumeImmediate_def Let_def)
    have h1: "video_at (videos ?shown) src = Some (sv\<lparr>volume := v\<rparr>)"
      using len by (simp add: video_at_update)
    have h2: "\<not> isReceivingLink ?shown" using src(3) by simp
    have hj: "video_at (videos ?shown) j = Some video"
      using other by (simp add: video_at_update)
    note u = updateOpacityImmediate_skip_videos [OF h1 h2, of clock ?newOpacity]
    have s1src: "video_at (videos ?s1) src = Some (sv\<lparr>volume := v, opacity := ?newOpacity\<rparr>)"
      using u(1) [of src] by simp
    have s1j: "\<exists>video'. video_at (videos ?s1) j = Some video' \<and> volume video' = volume video \<and>
        linked video' \<and> \<not> locked video'"
      using u(1) [of j] other src(2) hj
      by (simp add: link_result_def set_control_value_def)
    then obtain video' where v': "video_at (videos ?s1) j = Some video'"
      "volume video' = volume video" "linked video'" "\<not> locked video'"
      by blast
    from link_to_modules_videos(1) [OF s1src u(2) vo, of clock "volume sv" v j] src(2)
    have "video_at (videos s'') j = link_result src Volume (v - volume sv) j (Some video')"
      using v'(1) by (simp add: e)
    then show ?thesis
      using other(2) v' by (simp add: link_result_def set_control_value_def control_value_def)
  qed
qed

lemma updateVolumeImmediate_skip_videos:
  assumes "video_at (videos s) src = Some sv" "\<not> isReceivingLink s"
  shows "video_at (videos (updateVolumeImmediate_skip clock src x s)) j =
      (if j = src then Some (sv\<lparr>volume := x\<rparr>)
       else if linked sv then link_result src Volume (x - volume sv) j (video_at (videos s) j)
       else video_at (videos s) j)"
    and "\<not> isReceivingLink (updateVolumeImmediate_skip clock src x s)"
proof -
  let ?c = "s\<lparr>videos := (videos s)[src := Some (sv\<lparr>volume := x\<rparr>)]\<rparr>"
  from assms(1) have len: "src < length (videos s)"
    by (auto simp: video_at_def split: if_splits)
  have e: "updateVolumeImmediate_skip clock src x s = link_to_modules clock src Volume (volume sv) x ?c"
    using assms by (simp add: updateVolumeImmediate_skip_def Let_def)
  have c1: "video_at (videos ?c) src = Some (sv\<lparr>volume := x\<rparr>)"
    using len by (simp add: video_at_update)
  have c2: "\<not> isReceivingLink ?c" using assms(2) by simp
  have o: "Volume = Volume \<or> Volume = Opacity" by simp
  note l = link_to_modules_videos [OF c1 c2 o, of clock "volume sv" x]
  show "\<not> isReceivingLink (updateVolumeImmediate_skip clock src x s)"
    unfolding e by (rule l(2))
  show "video_at (videos (updateVolumeImmediate_skip clock src x s)) j =
      (if j = src then Some (sv\<lparr>volume := x\<rparr>)
       else if linked sv then link_result src Volume (x - volume sv) j (video_at (videos s) j)
       else video_at (videos s) j)"
    unfolding e l(1) using len
    by (auto simp: video_at_update link_result_def)
qed

lemma updateOpacityImmediate_others:
  assumes src: "video_at (videos s) src = Some sv" "linked sv" "\<not> isReceivingLink s"
    and res: "updateOpacityImmediate clock src v s = Inr s''"
    and other: "video_at (videos s) j = Some video" "j \<noteq> src" "linked video" "\<not> locked video"
  shows "map_option opacity (video_at (videos s'') j) = Some (clamp100 (opacity video + (v - opacity sv)))"
proof -
  let ?c = "s\<lparr>videos := (videos s)[src := Some (sv\<lparr>opacity := v\<rparr>)]\<rparr>"
  from src(1) have len: "src < length (videos s)"
    by (auto simp: video_at_def split: if_splits)
  have vo: "Opacity = Volume \<or> Opacity = Opacity" by simp
  show ?thesis
  proof (cases "volumeOpacityLinked sv")
    case False
    with res src have e: "s'' = link_to_modules clock src Opacity (opacity sv) v ?c"
      by (simp add: updateOpacityImmediate_def Let_def)
    have c1: "video_at (videos ?c) src = Some (sv\<lparr>opacity := v\<rparr>)"
      using len by (simp add: video_at_update)
    have c2: "\<not> isReceivingLink ?c" using src(3) by simp
    have cj: "video_at (videos ?c) j = Some video"
      using other by (simp add: video_at_update)
    from link_to_modules_videos(1) [OF c1 c2 vo, of clock "opacity sv" v j] src(2)
    have "video_at (videos s'') j = link_result src Opacity (v - opacity sv) j (Some video)"
      using cj by (simp add: e)
    then show ?thesis
      using other by (simp add: link_result_def set_control_value_def control_value_def)
  next
    case True
    with res src obtain volSlider where sl: "volSliders s src = Some volSlider"
      by (auto simp: updateOpacityImmediate_def Let_def split: option.splits)
    let ?newVolume = "clamp100 (sliderValue volSlider + (v - opacity sv))"
    let ?shown = "?c\<lparr>volSliders := (volSliders ?c)(src \<mapsto> volSlider\<lparr>sliderValue := ?newVolume\<rparr>)\<rparr>"
    let ?s1 = "updateVolumeImmediate_skip clock src ?newVolume ?shown"
    from res src True sl have e: "s'' = link_to_modules clock src Opacity (opacity sv) v ?s1"
      by (simp add: updateOpacityImmediate_def Let_def)
    have h1: "video_at (videos ?shown) src = Some (sv\<lparr>opacity := v\<rparr>)"
      using len by (simp add: video_at_update)
    have h2: "\<not> isReceivingLink ?shown" using src(3) by simp
    have hj: "video_at (videos ?shown) j = Some video"
      using other by (simp add: video_at_update)
    note u = updateVolumeImmediate_skip_videos [OF h1 h2, of clock ?newVolume]
    have s1src: "video_at (videos ?s1) src = Some (sv\<lparr>opacity := v, volume := ?newVolume\<rparr>)"
      using u(1) [of src] by simp
    have s1j: "\<exists>video'. video_at (videos ?s1) j = Some video' \<and> opacity video' = opacity video \<and>
        linked video' \<and> \<not> locked video'"
      using u(1) [of j] other src(2) hj
      by (simp add: link_result_def set_control_value_def)
    then obtain video' where v': "video_at (videos ?s1) j = Some video'"
      "opacity video' = opacity video" "linked video'" "\<not> locked video'"
      by blast
    from link_to_modules_videos(1) [OF s1src u(2) vo, of clock "opacity sv" v j] src(2)
    have "video_at (videos s'') j = link_result src Opacity (v - opacity sv) j (Some video')"
      using v'(1) by (simp add: e)
    then show ?thesis
      using other(2) v' by (simp add: link_result_def set_control_value_def control_value_def)
  qed
qed


lemma videos_eqI:
  assumes "length vs = length ws" "\<And>j. video_at vs j = video_at ws j"
  shows "vs = ws"
proof (rule nth_equalityI)
  show "length vs = length ws" by (rule assms(1))
  fix j assume "j < length vs"
  with assms(1) assms(2) [of j] show "vs ! j = ws ! j"
    by (simp add: video_at_def)
qed

lemma link_result_back:
  assumes "ct = Volume \<or> ct = Opacity"
    and "\<And>video. entry = Some video \<Longrightarrow> j \<noteq> src \<Longrightarrow> linked video \<Longrightarrow> \<not> locked video \<Longrightarrow>
      0 \<le> control_value ct video \<and> control_value ct video \<le> 100 \<and>
      0 \<le> control_value ct video + d \<and> control_value ct video + d \<le> 100"
  shows "link_result src ct (- d) j (link_result src ct d j entry) = entry"
proof (cases entry)
  case None
  then show ?thesis by (simp add: link_result_def)
next
  case (Some video)
  show ?thesis
  proof (cases "j \<noteq> src \<and> linked video \<and> \<not> locked video")
    case False
    with Some show ?thesis by (auto simp: link_result_def)
  next
    case True
    with assms(2) [OF Some] have
      "0 \<le> control_value ct video \<and> control_value ct video \<le> 100 \<and>
       0 \<le> control_value ct video + d \<and> control_value ct video + d \<le> 100"
      by blast
    with True Some assms(1) show ?thesis
      by (auto simp: link_result_def set_control_value_def control_value_def clamp100_def)
  qed
qed

text \<open>
  Claim C9. For a source track that is cross-module linked, \<open>updateLinkedControls\<close> adds the
  delta (new value minus old value) to the same control of every other track that is
  linked and not locked, clamped to the range from 0 to 100, so each resulting value lies
  in that range; every other slot of \<open>videos\<close> is left as it was. When no clamping occurs
  (the affected values and the values plus the delta all lie between 0 and 100), applying
  the delta and then its exact negation returns \<open>videos\<close> to its original contents. The
  delta that a live change of the volume or of the opacity slider passes on is the
  slider's new value minus the track's old value: after \<open>updateVolumeImmediate\<close> or
  \<open>updateOpacityImmediate\<close>, every other linked, unlocked track has its old value plus that
  delta, clamped.
\<close>

theorem linked_delta_clamp:
  fixes s :: mixer and clock clock' :: "control_key \<Rightarrow> int" and oldValue newValue :: int
    and sourceSlot :: nat and ct :: control_type
  assumes src: "video_at (videos s) sourceSlot = Some sourceVideo" "linked sourceVideo"
    and ct: "ct = Volume \<or> ct = Opacity"
  defines "s' \<equiv> updateLinkedControls clock sourceSlot ct oldValue newValue s"
  shows "(\<forall>slot video. video_at (videos s) slot = Some video \<and> slot \<noteq> sourceSlot \<and>
            linked video \<and> \<not> locked video \<longrightarrow>
          video_at (videos s') slot =
            Some (set_control_value ct
              (clamp100 (control_value ct video + (newValue - oldValue))) video)
          \<and> map_option (control_value ct) (video_at (videos s') slot) =
            Some (clamp100 (control_value ct video + (newValue - oldValue)))
          \<and> 0 \<le> clamp100 (control_value ct video + (newValue - oldValue))
          \<and> clamp100 (control_value ct video + (newValue - oldValue)) \<le> 100)
     \<and> (\<forall>slot. \<not> (\<exists>video. video_at (videos s) slot = Some video \<and> slot \<noteq> sourceSlot \<and>
            linked video \<and> \<not> locked video) \<longrightarrow>
          video_at (videos s') slot = video_at (videos s) slot)
     \<and> ((\<forall>slot video. video_at (videos s) slot = Some video \<and> slot \<noteq> sourceSlot \<and>
            linked video \<and> \<not> locked video \<longrightarrow>
            0 \<le> control_value ct video \<and> control_value ct video \<le> 100 \<and>
            0 \<le> control_value ct video + (newValue - oldValue) \<and>
            control_value ct video + (newValue - oldValue) \<le> 100) \<longrightarrow>
          videos (updateLinkedControls clock' sourceSlot ct newValue oldValue s') = videos s)
     \<and> (\<forall>v t slot video. \<not> isReceivingLink s \<and>
            updateVolumeImmediate clock sourceSlot v s = Inr t \<and>
            video_at (videos s) slot = Some video \<and> slot \<noteq> sourceSlot \<and>
            linked video \<and> \<not> locked video \<longrightarrow>
          map_option volume (video_at (videos t) slot) =
            Some (clamp100 (volume video + (v - volume sourceVideo))))
     \<and> (\<forall>v t slot video. \<not> isReceivingLink s \<and>
            updateOpacityImmediate clock sourceSlot v s = Inr t \<and>
            video_at (videos s) slot = Some video \<and> slot \<noteq> sourceSlot \<and>
            linked video \<and> \<not> locked video \<longrightarrow>
          map_option opacity (video_at (videos t) slot) =
            Some (clamp100 (opacity video + (v - opacity sourceVideo))))"
proof -
  note u = videos_updateLinkedControls [OF src ct, of clock oldValue newValue, folded s'_def]
  have affected: "video_at (videos s') slot =
            Some (set_control_value ct
              (clamp100 (control_value ct video + (newValue - oldValue))) video)
          \<and> map_option (control_value ct) (video_at (videos s') slot) =
            Some (clamp100 (control_value ct video + (newValue - oldValue)))
          \<and> 0 \<le> clamp100 (control_value ct video + (newValue - oldValue))
          \<and> clamp100 (control_value ct video + (newValue - oldValue)) \<le> 100"
    if "video_at (videos s) slot = Some video \<and> slot \<noteq> sourceSlot \<and>
            linked video \<and> \<not> locked video" for slot video
    using that ct
    by (auto simp: u(2) link_result_def set_control_value_def control_value_def clamp100_def)
  have unaffected: "video_at (videos s') slot = video_at (videos s) slot"
    if "\<not> (\<exists>video. video_at (videos s) slot = Some video \<and> slot \<noteq> sourceSlot \<and>
            linked video \<and> \<not> locked video)" for slot
    unfolding u(2) using that by (intro link_result_unaffected) blast
  have restored: "videos (updateLinkedControls clock' sourceSlot ct newValue oldValue s') = videos s"
    if nc: "\<forall>slot video. video_at (videos s) slot = Some video \<and> slot \<noteq> sourceSlot \<and>
            linked video \<and> \<not> locked video \<longrightarrow>
            0 \<le> control_value ct video \<and> control_value ct video \<le> 100 \<and>
            0 \<le> control_value ct video + (newValue - oldValue) \<and>
            control_value ct video + (newValue - oldValue) \<le> 100"
  proof (rule videos_eqI)
    have src': "video_at (videos s') sourceSlot = Some sourceVideo"
      using unaffected [of sourceSlot] src(1) by simp
    note u' = videos_updateLinkedControls [OF src' src(2) ct, of clock' newValue oldValue]
    show "length (videos (updateLinkedControls clock' sourceSlot ct newValue oldValue s')) =
        length (videos s)"
      using u'(1) u(1) by simp
    fix j
    have "video_at (videos (updateLinkedControls clock' sourceSlot ct newValue oldValue s')) j =
        link_result sourceSlot ct (- (newValue - oldValue)) j
          (link_result sourceSlot ct (newValue - oldValue) j (video_at (videos s) j))"
      by (simp add: u'(2) u(2))
    also have "\<dots> = video_at (videos s) j"
      using nc by (intro link_result_back [OF ct]) blast
    finally show "video_at (videos (updateLinkedControls clock' sourceSlot ct newValue oldValue s')) j =
        video_at (videos s) j" .
  qed
  have vol: "map_option volume (video_at (videos t) slot) =
            Some (clamp100 (volume video + (v - volume sourceVideo)))"
    if "\<not> isReceivingLink s \<and>
            updateVolumeImmediate clock sourceSlot v s = Inr t \<and>
            video_at (videos s) slot = Some video \<and> slot \<noteq> sourceSlot \<and>
            linked video \<and> \<not> locked video" for v t slot video
    using that updateVolumeImmediate_others [OF src, of clock v t slot video] by blast
  have opc: "map_option opacity (video_at (videos t) slot) =
            Some (clamp100 (opacity video + (v - opacity sourceVideo)))"
    if "\<not> isReceivingLink s \<and>
            updateOpacityImmediate clock sourceSlot v s = Inr t \<and>
            video_at (videos s) slot = Some video \<and> slot \<noteq> sourceSlot \<and>
            linked video \<and> \<not> locked video" for v t slot video
    using that updateOpacityImmediate_others [OF src, of clock v t slot video] by blast
  from affected unaffected restored vol opc show ?thesis
    by blast
qed


theorem linked_delta_clamp_witness:
  "map_option volume
      (video_at (videos (updateLinkedControls (\<lambda>k. 2005000) 0 Volume 50 70 overdub_mixer)) 1) =
     Some 70
   \<and> videos (updateLinkedControls (\<lambda>k. 2006000) 0 Volume 70 50
        (updateLinkedControls (\<lambda>k. 2005000) 0 Volume 50 70 overdub_mixer)) =
     videos overdub_mixer
   \<and> map_option volume
      (video_at (videos (updateLinkedControls (\<lambda>k. 2005000) 0 Volume 50 130 overdub_mixer)) 1) =
     Some 100"
proof -
  let ?v0 = "new_video\<lparr>linked := True\<rparr>"
  let ?v1 = "new_video\<lparr>linked := True, volumeOpacityLinked := True\<rparr>"
  have vids: "videos overdub_mixer = [Some ?v0, Some ?v1]"
    by (simp add: overdub_mixer_def initial_mixer_def)
  have h1: "video_at (videos overdub_mixer) 0 = Some ?v0"
    and h2: "linked ?v0"
    and h3: "Volume = Volume \<or> Volume = Opacity"
    and v1: "video_at (videos overdub_mixer) 1 = Some ?v1 \<and> (1::nat) \<noteq> 0 \<and> linked ?v1 \<and> \<not> locked ?v1"
    by (simp_all add: vids video_at_def new_video_def)
  have cv: "control_value Volume ?v1 = 50"
    by (simp add: control_value_def new_video_def)
  have only: "video = ?v1"
    if "video_at (videos overdub_mixer) slot = Some video \<and> slot \<noteq> 0 \<and> linked video \<and> \<not> locked video"
    for slot video
    using that by (auto simp: vids video_at_def less_Suc_eq numeral_2_eq_2 split: if_splits)
  note th = linked_delta_clamp [OF h1 h2 h3, of "\<lambda>k. 2005000" 50]
  from th [of 70] v1 have a: "map_option (control_value Volume)
      (video_at (videos (updateLinkedControls (\<lambda>k. 2005000) 0 Volume 50 70 overdub_mixer)) 1) =
     Some (clamp100 (control_value Volume ?v1 + (70 - 50)))"
    by blast
  from th [of 130] v1 have c: "map_option (control_value Volume)
      (video_at (videos (updateLinkedControls (\<lambda>k. 2005000) 0 Volume 50 130 overdub_mixer)) 1) =
     Some (clamp100 (control_value Volume ?v1 + (130 - 50)))"
    by blast
  have nc: "\<forall>slot video. video_at (videos overdub_mixer) slot = Some video \<and> slot \<noteq> 0 \<and>
            linked video \<and> \<not> locked video \<longrightarrow>
            0 \<le> control_value Volume video \<and> control_value Volume video \<le> 100 \<and>
            0 \<le> control_value Volume video + (70 - 50) \<and>
            control_value Volume video + (70 - 50) \<le> 100"
    using only cv by fastforce
  from th [of 70 "\<lambda>k. 2006000"] nc have b: "videos (updateLinkedControls (\<lambda>k. 2006000) 0 Volume 70 50
        (updateLinkedControls (\<lambda>k. 2005000) 0 Volume 50 70 overdub_mixer)) =
     videos overdub_mixer"
    by blast
  have cvf: "control_value Volume = volume"
    by (simp add: control_value_def fun_eq_iff)
  have a': "clamp100 (control_value Volume ?v1 + (70 - 50)) = 70"
    and c': "clamp100 (control_value Volume ?v1 + (130 - 50)) = 100"
    by (simp_all add: cv clamp100_def)
  from a [unfolded a', unfolded cvf] b c [unfolded c', unfolded cvf] show ?thesis
    by (intro conjI)
qed

end
